theory Spec2Isabelle
  imports Complex_Main
begin

section \<open>JavaScript values and numbers\<close>

text \<open>
  The dashboard script (three revisions: \<^verbatim>\<open>src/static/app.js\<close> lines 1-148, the same
  file lines 149-330, and \<^verbatim>\<open>src/unnamed/part_000\<close>) reads numeric fields of a JSON
  payload and formats them.  A JavaScript number is an IEEE-754 binary64 value: not-a-number,
  an infinity, or a finite value, which is carried here by its exact rational value.  The two
  zeros are identified: the script only compares, multiplies, takes absolute values and
  formats, and none of these tells \<open>-0\<close> from \<open>+0\<close> in what is displayed.
\<close>

datatype jsnum = NaN | PInf | NInf | Fin rat

text \<open>The values a numeric field of the payload can hold; a missing field reads as
  \<open>undefined\<close>.\<close>

datatype jsval = Null | Undefined | Num jsnum

datatype js_error =
    RangeError string
  | TypeError string
  | SyntaxError string
  | Error string

subsection \<open>Rounding to binary64\<close>

text \<open>Round to the nearest integer, a tie going to the even neighbour.\<close>

definition round_half_even :: "rat \<Rightarrow> int" where
  "round_half_even q =
     (let f = \<lfloor>q\<rfloor>; r = q - of_int f
      in if r < 1 / 2 then f
         else if 1 / 2 < r then f + 1
         else if even f then f else f + 1)"

text \<open>Number of binary digits of a positive integer.\<close>

fun bitlen :: "int \<Rightarrow> int" where
  "bitlen n = (if n \<le> 0 then 0 else 1 + bitlen (n div 2))"

declare bitlen.simps [simp del]

text \<open>\<open>ilog2 q\<close> is the integer \<open>e\<close> with \<open>2 ^ e \<le> q < 2 ^ (e + 1)\<close>, for \<open>q > 0\<close>.\<close>

definition ilog2 :: "rat \<Rightarrow> int" where
  "ilog2 q =
     (let (p, d) = quotient_of q;
          e = bitlen p - bitlen d
      in if 2 powi e \<le> q then e else e - 1)"

text \<open>
  \<open>fl q\<close> is the Number value for the real \<open>q\<close>: the nearest binary64 value, ties to the
  even significand, with gradual underflow below \<open>2 ^ -1022\<close> (spacing \<open>2 ^ -1074\<close>) and
  overflow to an infinity from \<open>2 ^ 1024\<close>.
\<close>

definition fl :: "rat \<Rightarrow> jsnum" where
  "fl q =
     (if q = 0 then Fin 0
      else let a = \<bar>q\<bar>;
               e = max (ilog2 a) (- 1022);
               u = 2 powi (e - 52);
               r = of_int (round_half_even (a / u)) * u
           in if 2 powi 1024 \<le> r then (if q < 0 then NInf else PInf)
              else Fin (if q < 0 then - r else r))"

subsection \<open>Coercions, comparison, arithmetic\<close>

text \<open>\<open>ToNumber\<close>: \<open>null\<close> becomes \<open>0\<close>, \<open>undefined\<close> becomes not-a-number.\<close>

fun to_number :: "jsval \<Rightarrow> jsnum" where
  "to_number Null = Fin 0"
| "to_number Undefined = NaN"
| "to_number (Num n) = n"

text \<open>\<open>Number.isNaN\<close> does not coerce its argument.\<close>

fun number_isNaN :: "jsval \<Rightarrow> bool" where
  "number_isNaN (Num NaN) = True"
| "number_isNaN _ = False"

text \<open>\<open>a < b\<close> on numbers; every comparison with not-a-number is false.\<close>

fun num_less :: "jsnum \<Rightarrow> jsnum \<Rightarrow> bool" where
  "num_less NaN _ = False"
| "num_less _ NaN = False"
| "num_less PInf _ = False"
| "num_less _ NInf = False"
| "num_less NInf _ = True"
| "num_less _ PInf = True"
| "num_less (Fin a) (Fin b) = (a < b)"

definition js_gt :: "jsval \<Rightarrow> jsnum \<Rightarrow> bool" where
  "js_gt v n = num_less n (to_number v)"

definition js_lt :: "jsval \<Rightarrow> jsnum \<Rightarrow> bool" where
  "js_lt v n = num_less (to_number v) n"

fun num_neg :: "jsnum \<Rightarrow> jsnum" where
  "num_neg NaN = NaN"
| "num_neg PInf = NInf"
| "num_neg NInf = PInf"
| "num_neg (Fin a) = Fin (- a)"

text \<open>The product of two numbers: exact product, then rounded.\<close>

fun num_mul :: "jsnum \<Rightarrow> jsnum \<Rightarrow> jsnum" where
  "num_mul NaN _ = NaN"
| "num_mul _ NaN = NaN"
| "num_mul (Fin a) (Fin b) = fl (a * b)"
| "num_mul (Fin a) w = (if a = 0 then NaN else if 0 < a then w else num_neg w)"
| "num_mul w (Fin b) = (if b = 0 then NaN else if 0 < b then w else num_neg w)"
| "num_mul PInf PInf = PInf"
| "num_mul PInf NInf = NInf"
| "num_mul NInf PInf = NInf"
| "num_mul NInf NInf = PInf"

text \<open>The operator \<open>*\<close> coerces both operands with \<open>ToNumber\<close>.\<close>

definition js_mul :: "jsval \<Rightarrow> jsnum \<Rightarrow> jsnum" where
  "js_mul v n = num_mul (to_number v) n"

text \<open>\<open>Math.abs\<close> coerces its argument with \<open>ToNumber\<close>.\<close>

fun num_abs :: "jsnum \<Rightarrow> jsnum" where
  "num_abs NaN = NaN"
| "num_abs PInf = PInf"
| "num_abs NInf = PInf"
| "num_abs (Fin a) = Fin \<bar>a\<bar>"

definition math_abs :: "jsval \<Rightarrow> jsnum" where
  "math_abs v = num_abs (to_number v)"

section \<open>Strings of digits\<close>

text \<open>
  Strings are lists of bytes as they stand in the UTF-8 source file: the placeholder
  (an em dash, U+2014) is three bytes, the degree sign (U+00B0) two.
\<close>

definition placeholder :: string where
  "placeholder = [CHR 0xE2, CHR 0x80, CHR 0x94]"

definition degree_sign :: string where
  "degree_sign = [CHR 0xC2, CHR 0xB0]"

definition digit_char :: "int \<Rightarrow> char" where
  "digit_char d = ''0123456789'' ! nat d"

definition is_digit :: "char \<Rightarrow> bool" where
  "is_digit c = (c \<in> set ''0123456789'')"

text \<open>The decimal representation of a non-negative integer, no leading zeros.\<close>

fun dec :: "int \<Rightarrow> string" where
  "dec n = (if n < 10 then [digit_char n] else dec (n div 10) @ [digit_char (n mod 10)])"

declare dec.simps [simp del]

text \<open>Number of decimal digits of a positive integer.\<close>

fun declen :: "int \<Rightarrow> int" where
  "declen n = (if n \<le> 0 then 0 else 1 + declen (n div 10))"

declare declen.simps [simp del]

definition ilog10 :: "rat \<Rightarrow> int" where
  "ilog10 q =
     (let (p, d) = quotient_of q;
          e = declen p - declen d
      in if 10 powi e \<le> q then e else e - 1)"

section \<open>Built-in number formatting\<close>

subsection \<open>\<open>Number::toString\<close>, radix 10\<close>

text \<open>
  For a finite \<open>v > 0\<close> the standard takes integers \<open>n\<close>, \<open>k\<close>, \<open>s\<close> with \<open>k \<ge> 1\<close>,
  \<open>10 ^ (k - 1) \<le> s < 10 ^ k\<close>, \<open>s * 10 ^ (n - k)\<close> rounding to \<open>v\<close>, and \<open>k\<close> as small as
  possible; among several \<open>s\<close> the one nearest to \<open>v\<close>, the even one on a tie.
  \<open>shortest_digits\<close> searches \<open>k = 1, 2, ...\<close>; seventeen digits always identify a binary64
  value, so the fuel is never used up.
\<close>

fun shortest_digits :: "nat \<Rightarrow> nat \<Rightarrow> rat \<Rightarrow> int \<Rightarrow> int \<times> nat \<times> int" where
  "shortest_digits 0 k v n0 = (n0, k, \<lfloor>v / 10 powi (n0 - int k)\<rfloor>)"
| "shortest_digits (Suc fuel) k v n0 =
     (let sc = 10 powi (n0 - int k);
          lo = \<lfloor>v / sc\<rfloor>;
          hi = lo + 1;
          oklo = (fl (of_int lo * sc) = Fin v);
          okhi = (fl (of_int hi * sc) = Fin v);
          dlo = v - of_int lo * sc;
          dhi = of_int hi * sc - v;
          c = (if oklo \<and> okhi
               then (if dlo < dhi then lo else if dhi < dlo then hi
                     else if even lo then lo else hi)
               else if oklo then lo else hi)
      in if oklo \<or> okhi
         then (if c = 10 ^ k then (n0 + 1, k, 10 ^ (k - 1)) else (n0, k, c))
         else shortest_digits fuel (Suc k) v n0)"

definition exponent_part :: "int \<Rightarrow> string" where
  "exponent_part e = (if 0 \<le> e then ''e+'' @ dec e else ''e-'' @ dec (- e))"

definition positive_to_string :: "rat \<Rightarrow> string" where
  "positive_to_string v =
     (let (n, k, s) = shortest_digits 17 1 v (ilog10 v + 1);
          ds = dec s
      in if - 5 \<le> n \<and> n \<le> 21
         then (if int k \<le> n then ds @ replicate (nat (n - int k)) CHR ''0''
               else if 0 < n then take (nat n) ds @ ''.'' @ drop (nat n) ds
               else ''0.'' @ replicate (nat (- n)) CHR ''0'' @ ds)
         else (if k = 1 then ds @ exponent_part (n - 1)
               else take 1 ds @ ''.'' @ drop 1 ds @ exponent_part (n - 1)))"

fun number_to_string :: "jsnum \<Rightarrow> string" where
  "number_to_string NaN = ''NaN''"
| "number_to_string PInf = ''Infinity''"
| "number_to_string NInf = ''-Infinity''"
| "number_to_string (Fin q) =
     (if q = 0 then ''0''
      else if q < 0 then ''-'' @ positive_to_string (- q)
      else positive_to_string q)"

subsection \<open>\<open>Number.prototype.toFixed\<close>\<close>

text \<open>
  The digits of \<open>a \<ge> 0\<close> to \<open>f\<close> places: \<open>n\<close> is the integer for which \<open>n / 10 ^ f - a\<close> is
  nearest to zero, the larger one of two; its digits are padded with zeros to at least
  \<open>f + 1\<close> characters and the point is set before the last \<open>f\<close>.
\<close>

definition fixed_digits :: "rat \<Rightarrow> nat \<Rightarrow> string" where
  "fixed_digits a f =
     (let n = \<lfloor>a * 10 ^ f + 1 / 2\<rfloor>;
          m = dec n
      in if f = 0 then m
         else let k = length m;
                  m' = (if k \<le> f then replicate (f + 1 - k) CHR ''0'' @ m else m);
                  k' = length m'
              in take (k' - f) m' @ ''.'' @ drop (k' - f) m')"

text \<open>
  \<open>x.toFixed(f)\<close>: a \<open>RangeError\<close> unless \<open>0 \<le> f \<le> 100\<close> (the count is a natural number
  here); a value that is not finite, or of magnitude \<open>10 ^ 21\<close> and more, is rendered by
  \<open>Number::toString\<close>.
\<close>

definition to_fixed :: "jsnum \<Rightarrow> nat \<Rightarrow> js_error + string" where
  "to_fixed x f =
     (if 100 < f then Inl (RangeError ''toFixed() digits argument must be between 0 and 100'')
      else Inr (case x of
                  Fin q \<Rightarrow>
                    (let s = (if q < 0 then ''-'' else []);
                         a = \<bar>q\<bar>
                     in if 10 ^ 21 \<le> a then s @ number_to_string (Fin a)
                        else s @ fixed_digits a f)
                | _ \<Rightarrow> number_to_string x))"

section \<open>The script's formatters\<close>

text \<open>\<^verbatim>\<open>fmtNum(x, digits = 2)\<close>, the same in all three revisions.\<close>

definition fmtNum :: "jsval \<Rightarrow> nat \<Rightarrow> js_error + string" where
  "fmtNum x digits =
     (if x = Null \<or> x = Undefined \<or> number_isNaN x then Inr placeholder
      else to_fixed (to_number x) digits)"

text \<open>
  A timestamp field of the payload: an ISO-8601 string, \<open>null\<close>, or missing.  What the
  browser makes of a date is not part of the script: the locale renderings, the parsed
  epoch milliseconds of a timestamp (\<open>new Date(t).getTime()\<close>, not-a-number for an invalid
  date) are functions supplied by the host.
\<close>

datatype tsval = TsNull | TsUndefined | TsStr string

record host =
  toLocaleString :: "string \<Rightarrow> string"
  toLocaleTimeString :: "string \<Rightarrow> string"
  getTime :: "tsval \<Rightarrow> jsnum"

text \<open>\<open>!isoZ\<close>: \<open>null\<close>, \<open>undefined\<close> and the empty string are falsy.\<close>

fun ts_falsy :: "tsval \<Rightarrow> bool" where
  "ts_falsy TsNull = True"
| "ts_falsy TsUndefined = True"
| "ts_falsy (TsStr s) = (s = [])"

text \<open>\<^verbatim>\<open>fmtLocalTime(isoZ, timeOnly = false)\<close> of \<^verbatim>\<open>part_000\<close> and of \<^verbatim>\<open>app.js\<close> line 149;
  the revision at \<^verbatim>\<open>app.js\<close> line 1 has no second parameter and is this one at
  \<open>timeOnly = False\<close>.\<close>

definition fmtLocalTime :: "host \<Rightarrow> tsval \<Rightarrow> bool \<Rightarrow> string" where
  "fmtLocalTime h isoZ timeOnly =
     (if ts_falsy isoZ then placeholder
      else case isoZ of
             TsStr s \<Rightarrow> if timeOnly then toLocaleTimeString h s else toLocaleString h s
           | _ \<Rightarrow> placeholder)"

text \<open>\<^verbatim>\<open>const PRESSURE_HPA_TO_INHG = 0.02953\<close>: the literal denotes the nearest binary64
  value.\<close>

definition PRESSURE_HPA_TO_INHG :: jsnum where
  "PRESSURE_HPA_TO_INHG = fl (2953 / 100000)"

section \<open>Fetching\<close>

text \<open>
  What \<open>fetch(url)\<close> comes to: the request fails in the network, or a response arrives
  with a status code, a body text, and what \<open>r.json()\<close> makes of the body (a syntax error
  with its message, or the decoded value).
\<close>

datatype 'a fetch_result =
    NetworkFailure string
  | Response nat string "string + 'a"

text \<open>\<open>r.ok\<close> holds for the statuses 200 to 299.\<close>

definition response_ok :: "nat \<Rightarrow> bool" where
  "response_ok status = (200 \<le> status \<and> status \<le> 299)"

definition http_message :: "nat \<Rightarrow> string \<Rightarrow> string" where
  "http_message status txt = ''HTTP '' @ dec (int status) @ '': '' @ txt"

fun getJSON :: "'a fetch_result \<Rightarrow> js_error + 'a" where
  "getJSON (NetworkFailure msg) = Inl (TypeError msg)"
| "getJSON (Response status txt parsed) =
     (if \<not> response_ok status then Inl (Error (http_message status txt))
      else case parsed of Inl msg \<Rightarrow> Inl (SyntaxError msg) | Inr v \<Rightarrow> Inr v)"

text \<open>
  \<open>Promise.all\<close> of the two requests fulfils with both values when both fulfil, and
  otherwise rejects with the reason of the request that rejects first; which one that is
  when both reject depends on the network and is an input.
\<close>

datatype settle = SummaryFirst | SeriesFirst

fun promise_all :: "settle \<Rightarrow> js_error + 'a \<Rightarrow> js_error + 'b \<Rightarrow> js_error + 'a \<times> 'b" where
  "promise_all _ (Inr a) (Inr b) = Inr (a, b)"
| "promise_all _ (Inl e) (Inr _) = Inl e"
| "promise_all _ (Inr _) (Inl e) = Inl e"
| "promise_all SummaryFirst (Inl e) (Inl _) = Inl e"
| "promise_all SeriesFirst (Inl _) (Inl e) = Inl e"

section \<open>Payload and page\<close>

record reading =
  ts_utc :: tsval
  temp_f :: jsval
  humidity_pct :: jsval
  pressure_hpa :: jsval

record summary =
  current :: reading
  temp_24h_high :: reading
  temp_24h_low :: reading
  pressure_change_hpa :: jsval
  pressure_24h_reference :: reading

type_synonym point = "tsval \<times> jsval"

text \<open>
  A chart of the charting library, as far as the script uses one: constructed on a canvas
  with a label, a time unit and a point array; the point array can be reassigned and
  \<open>update()\<close> redraws.  \<open>chart_id\<close> tells one constructed object from another.
\<close>

record chart =
  chart_id :: nat
  canvas :: string
  ylabel :: string
  time_unit :: string
  points :: "point list"
  redraws :: nat

text \<open>
  The page: the text content of the elements by id, the module-level chart variables by
  name (\<open>None\<close> is \<open>undefined\<close>), the number of charts constructed so far, whether the
  interval timer is installed, and what was logged with \<open>console.error\<close>.
\<close>

record page =
  dom :: "string \<Rightarrow> string"
  charts :: "string \<Rightarrow> chart option"
  charts_built :: nat
  timer_on :: bool
  console :: "js_error list"

text \<open>One refresh cycle's inputs: the two fetch outcomes, which request settles first, and
  \<open>Date.now()\<close> in milliseconds.\<close>

record cycle =
  summary_fetch :: "summary fetch_result"
  series_fetch :: "reading list fetch_result"
  first_settled :: settle
  clock :: int

subsection \<open>Statements with effects on the page\<close>

text \<open>A statement either throws and leaves the page as it found it, or returns the page
  it has changed; a sequence stops at the first statement that throws, with the changes
  made so far.\<close>

type_synonym step = "page \<Rightarrow> js_error + page"

fun run_steps :: "step list \<Rightarrow> page \<Rightarrow> js_error option \<times> page" where
  "run_steps [] p = (None, p)"
| "run_steps (s # ss) p = (case s p of Inl e \<Rightarrow> (Some e, p) | Inr p' \<Rightarrow> run_steps ss p')"

text \<open>A template literal: the parts are evaluated from left to right and joined.\<close>

fun tmpl :: "(js_error + string) list \<Rightarrow> js_error + string" where
  "tmpl [] = Inr []"
| "tmpl (Inl e # _) = Inl e"
| "tmpl (Inr s # ps) = (case tmpl ps of Inl e \<Rightarrow> Inl e | Inr t \<Rightarrow> Inr (s @ t))"

text \<open>\<^verbatim>\<open>document.getElementById(i).textContent = t\<close>.\<close>

definition set_text :: "string \<Rightarrow> js_error + string \<Rightarrow> step" where
  "set_text i t p =
     (case t of Inl e \<Rightarrow> Inl e | Inr s \<Rightarrow> Inr (p\<lparr>dom := (dom p)(i := s)\<rparr>))"

text \<open>\<^verbatim>\<open>v = buildLineChart(document.getElementById(c), pts, label, unit)\<close>.\<close>

definition buildLineChart :: "string \<Rightarrow> string \<Rightarrow> point list \<Rightarrow> string \<Rightarrow> string \<Rightarrow> step" where
  "buildLineChart v c pts label unit p =
     Inr (p\<lparr>charts := (charts p)(v \<mapsto>
                \<lparr>chart_id = charts_built p, canvas = c, ylabel = label,
                 time_unit = unit, points = pts, redraws = 0\<rparr>),
            charts_built := charts_built p + 1\<rparr>)"

text \<open>\<^verbatim>\<open>v.data.datasets[0].data = pts; v.update()\<close>; reading a property of an undefined
  variable throws.\<close>

definition update_chart :: "string \<Rightarrow> point list \<Rightarrow> step" where
  "update_chart v pts p =
     (case charts p v of
        None \<Rightarrow> Inl (TypeError ''Cannot read properties of undefined'')
      | Some c \<Rightarrow> Inr (p\<lparr>charts := (charts p)(v \<mapsto> c\<lparr>points := pts, redraws := redraws c + 1\<rparr>)\<rparr>))"

text \<open>\<open>a >= b\<close> on numbers.\<close>

definition num_ge :: "jsnum \<Rightarrow> jsnum \<Rightarrow> bool" where
  "num_ge a b = (a \<noteq> NaN \<and> b \<noteq> NaN \<and> \<not> num_less a b)"

text \<open>\<^verbatim>\<open>delta > 0 ? "up" : delta < 0 ? "down" : "flat"\<close>.\<close>

definition direction :: "jsval \<Rightarrow> string" where
  "direction delta =
     (if js_gt delta (Fin 0) then ''up'' else if js_lt delta (Fin 0) then ''down'' else ''flat'')"

text \<open>\<^verbatim>\<open>r.temp_f === null ? "\<emdash>" : `${fmtNum(r.temp_f, d)} \<degree>F`\<close>.\<close>

definition temp_or_placeholder :: "reading \<Rightarrow> nat \<Rightarrow> js_error + string" where
  "temp_or_placeholder r d =
     (if temp_f r = Null then Inr placeholder
      else tmpl [fmtNum (temp_f r) d, Inr ('' '' @ degree_sign @ ''F'')])"

text \<open>The three seven-day charts, created on the first pass and updated afterwards; the
  same statements in all three revisions.\<close>

definition week_charts :: "reading list \<Rightarrow> page \<Rightarrow> step list" where
  "week_charts ts p =
     (let tempPoints = map (\<lambda>r. (ts_utc r, temp_f r)) ts;
          humPoints = map (\<lambda>r. (ts_utc r, humidity_pct r)) ts;
          presPoints = map (\<lambda>r. (ts_utc r, pressure_hpa r)) ts
      in if charts p ''tempChart'' = None
         then [buildLineChart ''tempChart'' ''chartTemp'' tempPoints
                 (''Temp ('' @ degree_sign @ ''F)'') ''day'',
               buildLineChart ''humChart'' ''chartHum'' humPoints ''Humidity (%)'' ''day'',
               buildLineChart ''presChart'' ''chartPres'' presPoints ''Pressure (hPa)'' ''day'']
         else [update_chart ''tempChart'' tempPoints,
               update_chart ''humChart'' humPoints,
               update_chart ''presChart'' presPoints])"

text \<open>The two 24-hour charts of \<^verbatim>\<open>app.js\<close> lines 264-289.\<close>

definition day_charts :: "host \<Rightarrow> int \<Rightarrow> reading list \<Rightarrow> page \<Rightarrow> step list" where
  "day_charts h now ts p =
     (let cutoff = Fin (of_int (now - 24 * 60 * 60 * 1000));
          ts24 = filter (\<lambda>r. num_ge (getTime h (ts_utc r)) cutoff) ts;
          temp24Points = map (\<lambda>r. (ts_utc r, temp_f r)) ts24;
          pres24Points = map (\<lambda>r. (ts_utc r, pressure_hpa r)) ts24
      in if charts p ''temp24Chart'' = None
         then [buildLineChart ''temp24Chart'' ''chartTemp24'' temp24Points
                 (''Temp ('' @ degree_sign @ ''F)'') ''hour'',
               buildLineChart ''pres24Chart'' ''chartPres24'' pres24Points
                 ''Pressure (hPa)'' ''hour'']
         else [update_chart ''temp24Chart'' temp24Points,
               update_chart ''pres24Chart'' pres24Points])"

section \<open>The refresh cycle\<close>

text \<open>The statements after the fetch that write the KPI texts, \<^verbatim>\<open>app.js\<close> lines 64-103
  (two decimals, pressure in hPa only, a timestamp under each KPI).\<close>

definition kpi_v1 :: "host \<Rightarrow> summary \<Rightarrow> step list" where
  "kpi_v1 h s =
     (let curTs = fmtLocalTime h (ts_utc (current s)) False;
          delta = pressure_change_hpa s
      in [set_text ''curTemp''
            (tmpl [fmtNum (temp_f (current s)) 2, Inr ('' '' @ degree_sign @ ''F'')]),
          set_text ''curHum'' (tmpl [fmtNum (humidity_pct (current s)) 2, Inr '' %'']),
          set_text ''curPres'' (tmpl [fmtNum (pressure_hpa (current s)) 2, Inr '' hPa'']),
          set_text ''curTempTs'' (Inr curTs),
          set_text ''curHumTs'' (Inr curTs),
          set_text ''curPresTs'' (Inr curTs),
          set_text ''tHigh'' (temp_or_placeholder (temp_24h_high s) 2),
          set_text ''tHighTs'' (Inr (fmtLocalTime h (ts_utc (temp_24h_high s)) False)),
          set_text ''tLow'' (temp_or_placeholder (temp_24h_low s) 2),
          set_text ''tLowTs'' (Inr (fmtLocalTime h (ts_utc (temp_24h_low s)) False)),
          set_text ''presDelta''
            (tmpl [Inr (direction delta), Inr '' '', fmtNum (Num (math_abs delta)) 2,
                   Inr '' hPa'']),
          set_text ''presDeltaSub''
            (Inr (''vs '' @ fmtLocalTime h (ts_utc (pressure_24h_reference s)) False
                  @ '' reference'')),
          set_text ''lastUpdated''
            (Inr (''Last updated: '' @ fmtLocalTime h (ts_utc (current s)) False))])"

text \<open>\<^verbatim>\<open>part_000\<close> lines 66-102 (one decimal, the current pressure also in inHg, the factor
  written in place).\<close>

definition kpi_v2 :: "host \<Rightarrow> summary \<Rightarrow> step list" where
  "kpi_v2 h s =
     (let presHpa = pressure_hpa (current s);
          presInHg = js_mul presHpa (fl (2953 / 100000));
          delta = pressure_change_hpa s
      in [set_text ''curTemp''
            (tmpl [fmtNum (temp_f (current s)) 1, Inr ('' '' @ degree_sign @ ''F'')]),
          set_text ''curHum'' (tmpl [fmtNum (humidity_pct (current s)) 1, Inr '' %'']),
          set_text ''curPres''
            (tmpl [fmtNum presHpa 1, Inr '' hPa / '', fmtNum (Num presInHg) 1, Inr '' inHg'']),
          set_text ''tHigh'' (temp_or_placeholder (temp_24h_high s) 1),
          set_text ''tHighTs'' (Inr (''@ '' @ fmtLocalTime h (ts_utc (temp_24h_high s)) True)),
          set_text ''tLow'' (temp_or_placeholder (temp_24h_low s) 1),
          set_text ''tLowTs'' (Inr (''@ '' @ fmtLocalTime h (ts_utc (temp_24h_low s)) True)),
          set_text ''presDelta''
            (tmpl [Inr (direction delta), Inr '' '', fmtNum (Num (math_abs delta)) 1,
                   Inr '' hPa'']),
          set_text ''lastUpdated''
            (Inr (''Last updated: '' @ fmtLocalTime h (ts_utc (current s)) False))])"

text \<open>\<^verbatim>\<open>app.js\<close> lines 218-258 (one decimal, both pressures in hPa and inHg).\<close>

definition kpi_v3 :: "host \<Rightarrow> summary \<Rightarrow> step list" where
  "kpi_v3 h s =
     (let presHpa = pressure_hpa (current s);
          presInHg = js_mul presHpa PRESSURE_HPA_TO_INHG;
          delta = pressure_change_hpa s;
          deltaInHg = js_mul delta PRESSURE_HPA_TO_INHG
      in [set_text ''curTemp''
            (tmpl [fmtNum (temp_f (current s)) 1, Inr ('' '' @ degree_sign @ ''F'')]),
          set_text ''curHum'' (tmpl [fmtNum (humidity_pct (current s)) 1, Inr '' %'']),
          set_text ''curPres''
            (tmpl [fmtNum presHpa 1, Inr '' hPa / '', fmtNum (Num presInHg) 1, Inr '' inHg'']),
          set_text ''tHigh'' (temp_or_placeholder (temp_24h_high s) 1),
          set_text ''tHighTs'' (Inr (''@ '' @ fmtLocalTime h (ts_utc (temp_24h_high s)) True)),
          set_text ''tLow'' (temp_or_placeholder (temp_24h_low s) 1),
          set_text ''tLowTs'' (Inr (''@ '' @ fmtLocalTime h (ts_utc (temp_24h_low s)) True)),
          set_text ''presDelta''
            (tmpl [Inr (direction delta), Inr '' '', fmtNum (Num (math_abs delta)) 1,
                   Inr '' hPa / '', fmtNum (Num (num_abs deltaInHg)) 1, Inr '' inHg'']),
          set_text ''lastUpdated''
            (Inr (''Last updated: '' @ fmtLocalTime h (ts_utc (current s)) False))])"

text \<open>The statements of \<^verbatim>\<open>refresh\<close> after the fetch: the KPI texts, then the charts
  (\<^verbatim>\<open>app.js\<close> lines 64-135, \<^verbatim>\<open>part_000\<close> lines 66-133, \<^verbatim>\<open>app.js\<close> lines 218-317).\<close>

definition render_v1 :: "host \<Rightarrow> summary \<Rightarrow> reading list \<Rightarrow> page \<Rightarrow> js_error option \<times> page" where
  "render_v1 h s ts p =
     (case run_steps (kpi_v1 h s) p
      of (Some e, p') \<Rightarrow> (Some e, p')
       | (None, p') \<Rightarrow> run_steps (week_charts ts p') p')"

definition render_v2 :: "host \<Rightarrow> summary \<Rightarrow> reading list \<Rightarrow> page \<Rightarrow> js_error option \<times> page" where
  "render_v2 h s ts p =
     (case run_steps (kpi_v2 h s) p
      of (Some e, p') \<Rightarrow> (Some e, p')
       | (None, p') \<Rightarrow> run_steps (week_charts ts p') p')"

definition render_v3 ::
  "host \<Rightarrow> int \<Rightarrow> summary \<Rightarrow> reading list \<Rightarrow> page \<Rightarrow> js_error option \<times> page" where
  "render_v3 h now s ts p =
     (case run_steps (kpi_v3 h s) p
      of (Some e, p') \<Rightarrow> (Some e, p')
       | (None, p') \<Rightarrow>
           (case run_steps (day_charts h now ts p') p'
            of (Some e, p'') \<Rightarrow> (Some e, p'')
             | (None, p'') \<Rightarrow> run_steps (week_charts ts p'') p''))"

text \<open>\<^verbatim>\<open>refresh()\<close>: both fetches, then the statements above.  The three revisions share
  the fetch; \<open>render\<close> is the rest of the function.\<close>

definition refresh ::
  "(summary \<Rightarrow> reading list \<Rightarrow> page \<Rightarrow> js_error option \<times> page) \<Rightarrow> cycle \<Rightarrow> page
     \<Rightarrow> js_error option \<times> page" where
  "refresh render c p =
     (case promise_all (first_settled c) (getJSON (summary_fetch c)) (getJSON (series_fetch c))
      of Inl e \<Rightarrow> (Some e, p)
       | Inr (s, ts) \<Rightarrow> render s ts p)"

definition refresh_v1 :: "host \<Rightarrow> cycle \<Rightarrow> page \<Rightarrow> js_error option \<times> page" where
  "refresh_v1 h c = refresh (render_v1 h) c"

definition refresh_v2 :: "host \<Rightarrow> cycle \<Rightarrow> page \<Rightarrow> js_error option \<times> page" where
  "refresh_v2 h c = refresh (render_v2 h) c"

definition refresh_v3 :: "host \<Rightarrow> cycle \<Rightarrow> page \<Rightarrow> js_error option \<times> page" where
  "refresh_v3 h c = refresh (render_v3 h (clock c)) c"

section \<open>The driver\<close>

text \<open>\<open>e.message\<close>.\<close>

fun message :: "js_error \<Rightarrow> string" where
  "message (RangeError m) = m"
| "message (TypeError m) = m"
| "message (SyntaxError m) = m"
| "message (Error m) = m"

text \<open>
  The function run at page load, the same in the three revisions: the first cycle is
  awaited inside \<open>try\<close>; when it returns, the interval timer is installed; when it throws,
  the \<open>catch\<close> block logs the error and writes it to \<^verbatim>\<open>lastUpdated\<close>.
\<close>

definition page_load :: "(cycle \<Rightarrow> page \<Rightarrow> js_error option \<times> page) \<Rightarrow> cycle \<Rightarrow> page \<Rightarrow> page" where
  "page_load rf c p =
     (case rf c p of
        (None, p') \<Rightarrow> p'\<lparr>timer_on := True\<rparr>
      | (Some e, p') \<Rightarrow>
          p'\<lparr>dom := (dom p')(''lastUpdated'' := ''Error loading data: '' @ message e),
             console := console p' @ [e]\<rparr>)"

text \<open>One tick of the timer, \<^verbatim>\<open>refresh().catch(console.error)\<close>: nothing happens unless
  the timer was installed; an error is logged.\<close>

definition timer_tick :: "(cycle \<Rightarrow> page \<Rightarrow> js_error option \<times> page) \<Rightarrow> cycle \<Rightarrow> page \<Rightarrow> page" where
  "timer_tick rf c p =
     (if timer_on p
      then case rf c p of
             (None, p') \<Rightarrow> p'
           | (Some e, p') \<Rightarrow> p'\<lparr>console := console p' @ [e]\<rparr>
      else p)"

text \<open>The page before the script runs: the texts of the HTML document, no chart, no
  timer.\<close>

definition initial_page :: "(string \<Rightarrow> string) \<Rightarrow> page" where
  "initial_page d =
     \<lparr>dom = d, charts = (\<lambda>_. None), charts_built = 0, timer_on = False, console = []\<rparr>"

text \<open>The page after the load and the ticks that follow it, one cycle each.\<close>

fun run_ticks :: "(cycle \<Rightarrow> page \<Rightarrow> js_error option \<times> page) \<Rightarrow> cycle list \<Rightarrow> page \<Rightarrow> page" where
  "run_ticks rf [] p = p"
| "run_ticks rf (c # cs) p = run_ticks rf cs (timer_tick rf c p)"

definition run_page ::
  "(cycle \<Rightarrow> page \<Rightarrow> js_error option \<times> page) \<Rightarrow> (string \<Rightarrow> string) \<Rightarrow> cycle \<Rightarrow> cycle list \<Rightarrow> page" where
  "run_page rf d c cs = run_ticks rf cs (page_load rf c (initial_page d))"

section \<open>What the specification calls a fixed-point string\<close>

text \<open>
  The specification speaks of ``a fixed-point string with exactly the requested digit
  count''.  Read by the letter: an optional minus sign, one or more digits and, for a
  positive count \<open>d\<close>, a point followed by exactly \<open>d\<close> digits; for \<open>d = 0\<close> nothing
  follows the integer digits.  \<open>fixed_point_value\<close> is the number such a string denotes.
\<close>

definition digit_of :: "char \<Rightarrow> int" where
  "digit_of c = int (of_char c) - 48"

definition digits_value :: "string \<Rightarrow> int" where
  "digits_value s = foldl (\<lambda>a c. 10 * a + digit_of c) 0 s"

definition strip_sign :: "string \<Rightarrow> string" where
  "strip_sign s = (case s of [] \<Rightarrow> [] | c # r \<Rightarrow> if c = CHR ''-'' then r else s)"

definition fixed_point_string :: "nat \<Rightarrow> string \<Rightarrow> bool" where
  "fixed_point_string d s =
     (let t = strip_sign s;
          ip = takeWhile is_digit t;
          rest = dropWhile is_digit t
      in ip \<noteq> [] \<and>
         (if d = 0 then rest = []
          else case rest of
                 [] \<Rightarrow> False
               | c # fp \<Rightarrow> c = CHR ''.'' \<and> length fp = d \<and> list_all is_digit fp))"

definition fixed_point_value :: "string \<Rightarrow> rat" where
  "fixed_point_value s =
     (let t = strip_sign s;
          ip = takeWhile is_digit t;
          fp = drop 1 (dropWhile is_digit t);
          v = of_int (digits_value (ip @ fp)) / 10 ^ length fp
      in if t = s then v else - v)"

section \<open>Notions used in the statements\<close>

text \<open>The string \<^verbatim>\<open>fmtNum\<close> returns when it does not throw.\<close>

definition fmtNum_text :: "jsval \<Rightarrow> nat \<Rightarrow> string" where
  "fmtNum_text x d = (case fmtNum x d of Inl _ \<Rightarrow> [] | Inr s \<Rightarrow> s)"

text \<open>The chart variables of a group are set together: all of them or none.\<close>

definition week_coherent :: "page \<Rightarrow> bool" where
  "week_coherent p =
     ((charts p ''humChart'' = None) = (charts p ''tempChart'' = None) \<and>
      (charts p ''presChart'' = None) = (charts p ''tempChart'' = None))"

definition day_coherent :: "page \<Rightarrow> bool" where
  "day_coherent p = ((charts p ''pres24Chart'' = None) = (charts p ''temp24Chart'' = None))"

text \<open>The point arrays a payload gives the charts.\<close>

definition series_points :: "(reading \<Rightarrow> jsval) \<Rightarrow> reading list \<Rightarrow> point list" where
  "series_points field ts = map (\<lambda>r. (ts_utc r, field r)) ts"

definition last_day :: "host \<Rightarrow> int \<Rightarrow> reading list \<Rightarrow> reading list" where
  "last_day h now ts =
     filter (\<lambda>r. num_ge (getTime h (ts_utc r)) (Fin (of_int (now - 24 * 60 * 60 * 1000)))) ts"

text \<open>The data of the end-to-end scenarios of the specification: the current reading
  \<open>{temp_f: 72.34, humidity_pct: 45.6, pressure_hpa: 1015.2}\<close> and a pressure change of
  \<open>-2.5\<close>; the literals denote the nearest binary64 values.  The fields the scenarios
  leave open are \<open>null\<close>.\<close>

definition blank_reading :: reading where
  "blank_reading = \<lparr>ts_utc = TsNull, temp_f = Null, humidity_pct = Null, pressure_hpa = Null\<rparr>"

definition scenario_reading :: reading where
  "scenario_reading =
     \<lparr>ts_utc = TsStr ''2024-01-01T12:00:00Z'', temp_f = Num (fl (7234 / 100)),
      humidity_pct = Num (fl (456 / 10)), pressure_hpa = Num (fl (10152 / 10))\<rparr>"

definition scenario_summary :: summary where
  "scenario_summary =
     \<lparr>current = scenario_reading, temp_24h_high = blank_reading, temp_24h_low = blank_reading,
      pressure_change_hpa = Num (fl (- 5 / 2)), pressure_24h_reference = blank_reading\<rparr>"

text \<open>A host that renders a date as its ISO string and parses none.\<close>

definition plain_host :: host where
  "plain_host = \<lparr>toLocaleString = (\<lambda>s. s), toLocaleTimeString = (\<lambda>s. s), getTime = (\<lambda>_. NaN)\<rparr>"

text \<open>A cycle in which both requests answer with status 200 and a decodable body.\<close>

definition ok_cycle :: "summary \<Rightarrow> reading list \<Rightarrow> cycle" where
  "ok_cycle s ts =
     \<lparr>summary_fetch = Response 200 [] (Inr s), series_fetch = Response 200 [] (Inr ts),
      first_settled = SummaryFirst, clock = 0\<rparr>"

text \<open>A cycle in which \<^verbatim>\<open>/api/summary\<close> answers with status 500.\<close>

definition failing_cycle :: "reading list \<Rightarrow> cycle" where
  "failing_cycle ts =
     \<lparr>summary_fetch = Response 500 ''Internal Server Error'' (Inl ''Unexpected token''),
      series_fetch = Response 200 [] (Inr ts), first_settled = SummaryFirst, clock = 0\<rparr>"

text \<open>A page without any text.\<close>

definition empty_dom :: "string \<Rightarrow> string" where
  "empty_dom = (\<lambda>_. [])"

text \<open>What makes a chart the object it is (its identity, canvas, label and time unit) and
  what a cycle may change (its points, its redraw count); the chart variables of the
  revisions.\<close>

definition chart_frame :: "chart \<Rightarrow> nat \<times> string \<times> string \<times> string" where
  "chart_frame ch = (chart_id ch, canvas ch, ylabel ch, time_unit ch)"

definition week_vars :: "string list" where
  "week_vars = [''tempChart'', ''humChart'', ''presChart'']"

definition day_vars :: "string list" where
  "day_vars = [''temp24Chart'', ''pres24Chart'']"

definition frames :: "string list \<Rightarrow> page \<Rightarrow> (nat \<times> string \<times> string \<times> string) option list" where
  "frames vs p = map (\<lambda>v. map_option chart_frame (charts p v)) vs"

definition all_vars :: "string list" where
  "all_vars = day_vars @ week_vars"

definition chart_data :: "string list \<Rightarrow> page \<Rightarrow> (point list \<times> nat) option list" where
  "chart_data vs p = map (\<lambda>v. map_option (\<lambda>ch. (points ch, redraws ch)) (charts p v)) vs"

definition present :: "string list \<Rightarrow> page \<Rightarrow> bool" where
  "present vs p = list_all (\<lambda>v. charts p v \<noteq> None) vs"


text \<open>The three revisions of \<^verbatim>\<open>refresh\<close>.\<close>

definition revisions :: "host \<Rightarrow> (cycle \<Rightarrow> page \<Rightarrow> js_error option \<times> page) list" where
  "revisions h = [refresh_v1 h, refresh_v2 h, refresh_v3 h]"

text \<open>A cycle in which \<^verbatim>\<open>/api/summary\<close> answers 500 and the time-series request fails in
  the network, and fails first.\<close>

definition double_failure :: cycle where
  "double_failure =
     \<lparr>summary_fetch = Response 500 ''Internal Server Error'' (Inl ''Unexpected token''),
      series_fetch = NetworkFailure ''Failed to fetch'',
      first_settled = SeriesFirst, clock = 0\<rparr>"

section \<open>Rounding\<close>


lemma bitlen_nonpos: "n \<le> 0 \<Longrightarrow> bitlen n = 0"
  by (simp add: bitlen.simps)

lemma bitlen_pos: "0 < n \<Longrightarrow> bitlen n = 1 + bitlen (n div 2)"
  by (subst bitlen.simps) simp

lemma bitlen_ge0: "0 \<le> bitlen n"
  by (induction n rule: bitlen.induct) (subst bitlen.simps, simp)

lemma bitlen_bounds:
  "0 < n \<Longrightarrow> 2 ^ nat (bitlen n - 1) \<le> n \<and> n < 2 ^ nat (bitlen n)"
proof (induction n rule: bitlen.induct)
  case (1 n)
  show ?case
  proof (cases "n = 1")
    case True
    then show ?thesis by (simp add: bitlen_pos bitlen_nonpos)
  next
    case False
    with 1 have h: "0 < n div 2" by simp
    from 1 h have ih: "2 ^ nat (bitlen (n div 2) - 1) \<le> n div 2" "n div 2 < 2 ^ nat (bitlen (n div 2))"
      by simp_all
    have b: "bitlen n = 1 + bitlen (n div 2)" using 1 by (simp add: bitlen_pos)
    have g: "1 \<le> bitlen (n div 2)" using bitlen_pos[OF h] bitlen_ge0[of "n div 2 div 2"] by simp
    have e1: "nat (bitlen n - 1) = Suc (nat (bitlen (n div 2) - 1))" using b g by simp
    have e2: "nat (bitlen n) = Suc (nat (bitlen (n div 2)))" using b g by simp
    have d2: "2 * (n div 2) \<le> n" "n < 2 * (n div 2) + 2" by simp_all
    show ?thesis unfolding e1 e2 power_Suc using ih d2 by linarith
  qed
qed

lemma ilog2_bounds:
  assumes "0 < q"
  shows "2 powi (ilog2 q) \<le> q \<and> q < 2 powi (ilog2 q + 1)"
proof -
  obtain p d where pd: "quotient_of q = (p, d)" by force
  have dpos: "0 < d" using quotient_of_denom_pos[OF pd] .
  have q: "q = of_int p / of_int d" using quotient_of_div[OF pd] .
  have ppos: "0 < p" using assms dpos q by (simp add: zero_less_divide_iff)
  define bp where "bp = bitlen p"
  define bd where "bd = bitlen d"
  have bp1: "1 \<le> bp" using bitlen_pos[OF ppos] bitlen_ge0[of "p div 2"] by (simp add: bp_def)
  have bd1: "1 \<le> bd" using bitlen_pos[OF dpos] bitlen_ge0[of "d div 2"] by (simp add: bd_def)
  have P: "(2::rat) powi (bp - 1) \<le> of_int p" "of_int p < (2::rat) powi bp"
  proof -
    from bitlen_bounds[OF ppos] have a: "2 ^ nat (bp - 1) \<le> p" and b: "p < 2 ^ nat bp"
      by (simp_all add: bp_def)
    have "(of_int (2 ^ nat (bp - 1))::rat) \<le> of_int p" using a by (simp only: of_int_le_iff)
    then show "(2::rat) powi (bp - 1) \<le> of_int p" using bp1 by (simp add: power_int_def)
    have "(of_int p::rat) < of_int (2 ^ nat bp)" using b by (simp only: of_int_less_iff)
    then show "of_int p < (2::rat) powi bp" using bp1 by (simp add: power_int_def)
  qed
  have D: "(2::rat) powi (bd - 1) \<le> of_int d" "of_int d < (2::rat) powi bd"
  proof -
    from bitlen_bounds[OF dpos] have a: "2 ^ nat (bd - 1) \<le> d" and b: "d < 2 ^ nat bd"
      by (simp_all add: bd_def)
    have "(of_int (2 ^ nat (bd - 1))::rat) \<le> of_int d" using a by (simp only: of_int_le_iff)
    then show "(2::rat) powi (bd - 1) \<le> of_int d" using bd1 by (simp add: power_int_def)
    have "(of_int d::rat) < of_int (2 ^ nat bd)" using b by (simp only: of_int_less_iff)
    then show "of_int d < (2::rat) powi bd" using bd1 by (simp add: power_int_def)
  qed
  have dq: "(0::rat) < of_int d" using dpos by simp
  have lo: "(2::rat) powi (bp - bd - 1) \<le> q"
  proof -
    have "(2::rat) powi (bp - bd - 1) * of_int d \<le> 2 powi (bp - bd - 1) * 2 powi bd"
      using D(2) by (simp add: mult_left_mono)
    also have "\<dots> = 2 powi (bp - 1)" by (simp add: power_int_add [symmetric])
    also have "\<dots> \<le> of_int p" using P(1) .
    finally show ?thesis using dq by (simp add: q pos_le_divide_eq)
  qed
  have hi: "q < (2::rat) powi (bp - bd + 1)"
  proof -
    have "of_int p < (2::rat) powi bp" using P(2) .
    also have "\<dots> = 2 powi (bp - bd + 1) * 2 powi (bd - 1)" by (simp add: power_int_add [symmetric])
    also have "\<dots> \<le> 2 powi (bp - bd + 1) * of_int d" using D(1) by (simp add: mult_left_mono)
    finally show ?thesis using dq by (simp add: q pos_divide_less_eq)
  qed
  have il: "ilog2 q = (if 2 powi (bp - bd) \<le> q then bp - bd else bp - bd - 1)"
    by (simp add: ilog2_def pd bp_def bd_def Let_def)
  show ?thesis
  proof (cases "2 powi (bp - bd) \<le> q")
    case True
    then show ?thesis using hi il by simp
  next
    case False
    then show ?thesis using lo il by simp
  qed
qed

lemma ilog2_unique:
  assumes "2 powi e \<le> q" "q < 2 powi (e + 1)"
  shows "ilog2 q = e"
proof -
  have q0: "0 < q" using assms(1) by (meson less_le_trans zero_less_numeral zero_less_power_int)
  from ilog2_bounds[OF q0] have a: "2 powi (ilog2 q) \<le> q" and b: "q < 2 powi (ilog2 q + 1)" by simp_all
  have "(2::rat) powi e < 2 powi (ilog2 q + 1)" using assms(1) b by simp
  then have 1: "e < ilog2 q + 1"
    using power_int_increasing[of "ilog2 q + 1" e "2::rat"] by (cases "e < ilog2 q + 1") simp_all
  have "(2::rat) powi (ilog2 q) < 2 powi (e + 1)" using a assms(2) by simp
  then have 2: "ilog2 q < e + 1"
    using power_int_increasing[of "e + 1" "ilog2 q" "2::rat"] by (cases "ilog2 q < e + 1") simp_all
  from 1 2 show ?thesis by simp
qed



lemma floor_rat_numeral [simp]: "\<lfloor>numeral a / numeral b :: rat\<rfloor> = numeral a div numeral b"
  by (metis floor_divide_of_int_eq of_int_numeral)

lemma fl_eval_pos:
  assumes "2 powi e \<le> q" "q < 2 powi (e + 1)" "- 1022 \<le> e"
    and "of_int (round_half_even (q / 2 powi (e - 52))) * 2 powi (e - 52) = r"
    and "r < 2 powi 1024"
  shows "fl q = Fin r"
proof -
  have q0: "0 < q" using assms(1) by (meson less_le_trans zero_less_numeral zero_less_power_int)
  have il: "ilog2 q = e" using ilog2_unique[OF assms(1,2)] .
  have mx: "max e (- 1022) = e" using assms(3) by simp
  have "\<not> 2 powi 1024 \<le> r" using assms(5) by simp
  have aq: "\<bar>q\<bar> = q" using q0 by simp
  then show ?thesis using q0 assms(4) \<open>\<not> 2 powi 1024 \<le> r\<close> unfolding fl_def Let_def
    by (simp only: aq il mx) simp
qed

lemma fl_neg: "fl (- q) = num_neg (fl q)"
  by (simp add: fl_def Let_def)


lemma fl_const: "fl (2953 / 100000) = Fin (531965187985003 / 18014398509481984)"
  by (rule fl_eval_pos[where e = "- 6"]) (simp_all add: round_half_even_def Let_def)

lemma fl_7234: "fl (7234 / 100) = Fin (2545237476906107 / 35184372088832)"
  by (rule fl_eval_pos[where e = 6]) (simp_all add: round_half_even_def Let_def)

section \<open>Digits and fixed-point strings\<close>

lemma digit_char_cases:
  "0 \<le> d \<Longrightarrow> d < 10 \<Longrightarrow> is_digit (digit_char d) \<and> digit_of (digit_char d) = d \<and> digit_char d \<noteq> CHR ''-''  \<and> digit_char d \<noteq> CHR ''.''"
proof -
  assume "0 \<le> d" "d < 10"
  then have "d = 0 \<or> d = 1 \<or> d = 2 \<or> d = 3 \<or> d = 4 \<or> d = 5 \<or> d = 6 \<or> d = 7 \<or> d = 8 \<or> d = 9"
    by presburger
  then show ?thesis
    by (elim disjE) (simp_all add: is_digit_def digit_char_def digit_of_def)
qed

lemma dec_small: "n < 10 \<Longrightarrow> dec n = [digit_char n]"
  by (subst dec.simps) simp

lemma dec_big: "10 \<le> n \<Longrightarrow> dec n = dec (n div 10) @ [digit_char (n mod 10)]"
  by (subst dec.simps) simp

lemma dec_nonempty: "dec n \<noteq> []"
  by (subst dec.simps) simp

lemma dec_digits: "0 \<le> n \<Longrightarrow> list_all is_digit (dec n)"
proof (induction n rule: dec.induct)
  case (1 n)
  show ?case
  proof (cases "n < 10")
    case True
    then show ?thesis using 1(2) digit_char_cases[of n] by (simp add: dec_small)
  next
    case False
    then have "list_all is_digit (dec (n div 10))" using 1 by simp
    moreover have "is_digit (digit_char (n mod 10))" using digit_char_cases[of "n mod 10"] by simp
    ultimately show ?thesis using False by (simp add: dec_big)
  qed
qed

lemma digits_value_snoc: "digits_value (s @ [c]) = 10 * digits_value s + digit_of c"
  by (simp add: digits_value_def)

lemma dec_value: "0 \<le> n \<Longrightarrow> digits_value (dec n) = n"
proof (induction n rule: dec.induct)
  case (1 n)
  show ?case
  proof (cases "n < 10")
    case True
    then show ?thesis using 1(2) digit_char_cases[of n] by (simp add: dec_small digits_value_def)
  next
    case False
    then have "digits_value (dec (n div 10)) = n div 10" using 1 by simp
    moreover have "digit_of (digit_char (n mod 10)) = n mod 10" using digit_char_cases[of "n mod 10"] by simp
    ultimately show ?thesis using False by (simp add: dec_big digits_value_snoc)
  qed
qed

lemma digits_value_zeros: "digits_value (replicate z CHR ''0'' @ s) = digits_value s"
proof -
  have "foldl (\<lambda>a c. 10 * a + digit_of c) 0 (replicate z CHR ''0'') = 0"
    by (induction z) (simp_all add: digit_of_def)
  then show ?thesis by (simp add: digits_value_def)
qed


lemma fixed_digits_shape:
  assumes "0 \<le> a"
  shows "\<exists>ip fp. fixed_digits a f = ip @ (if f = 0 then [] else CHR ''.'' # fp)
           \<and> ip \<noteq> [] \<and> list_all is_digit ip \<and> list_all is_digit fp \<and> length fp = f
           \<and> digits_value (ip @ fp) = \<lfloor>a * 10 ^ f + 1 / 2\<rfloor>"
proof -
  define n where "n = \<lfloor>a * 10 ^ f + 1 / 2\<rfloor>"
  have n0: "0 \<le> n" using assms by (simp add: n_def)
  define m where "m = dec n"
  have md: "list_all is_digit m" and mv: "digits_value m = n" and mn: "m \<noteq> []"
    using dec_digits[OF n0] dec_value[OF n0] dec_nonempty[of n] by (simp_all add: m_def)
  show ?thesis
  proof (cases "f = 0")
    case True
    have "fixed_digits a f = m" using True by (simp add: fixed_digits_def n_def m_def Let_def)
    then show ?thesis using True md mv mn by (intro exI[of _ m] exI[of _ "[]"]) (simp add: n_def)
  next
    case False
    define m' where "m' = (if length m \<le> f then replicate (f + 1 - length m) CHR ''0'' @ m else m)"
    define ip where "ip = take (length m' - f) m'"
    define fp where "fp = drop (length m' - f) m'"
    have len: "f < length m'" by (simp add: m'_def)
    have z: "is_digit CHR ''0''" by (simp add: is_digit_def)
    have d': "list_all is_digit m'" using md z by (simp add: m'_def list_all_iff)
    have v': "digits_value m' = n" using mv by (simp add: m'_def digits_value_zeros)
    have "fixed_digits a f = take (length m' - f) m' @ ''.'' @ drop (length m' - f) m'"
      unfolding fixed_digits_def Let_def m'_def m_def n_def using False by simp
    then have eq: "fixed_digits a f = ip @ CHR ''.'' # fp"
      by (simp add: ip_def fp_def)
    have 1: "ip \<noteq> []" using len by (simp add: ip_def) (use len in auto)
    have 2: "list_all is_digit ip" "list_all is_digit fp"
      using d' by (auto simp: ip_def fp_def list_all_iff dest: in_set_takeD in_set_dropD)
    have 3: "length fp = f" using len by (simp add: fp_def)
    have 4: "ip @ fp = m'" by (simp add: ip_def fp_def)
    show ?thesis using False eq 1 2 3 v' 
      by (intro exI[of _ ip] exI[of _ fp]) (simp add: 4 n_def)
  qed
qed

lemma not_digit_point: "\<not> is_digit CHR ''.''" "\<not> is_digit CHR ''-''"
  by (simp_all add: is_digit_def)

lemma fixed_point_parse:
  assumes "ip \<noteq> []" "list_all is_digit ip" "list_all is_digit fp" "length fp = f"
    and "sg = [] \<or> sg = ''-''"
  defines "s \<equiv> sg @ ip @ (if f = 0 then [] else CHR ''.'' # fp)"
  shows "fixed_point_string f s"
    and "fixed_point_value s
           = (if sg = [] then 1 else - 1) * of_int (digits_value (ip @ fp)) / 10 ^ f"
proof -
  define body where "body = ip @ (if f = 0 then [] else CHR ''.'' # fp)"
  obtain c r where ip: "ip = c # r" using assms(1) by (cases ip) auto
  have c: "is_digit c" using assms(2) ip by simp
  have cm: "c \<noteq> CHR ''-''" using c not_digit_point(2) by auto
  have s_eq: "s = sg @ body" by (simp add: s_def body_def)
  have st: "strip_sign s = body" using assms(5) cm by (auto simp: s_def body_def strip_sign_def ip)
  have "(body = sg @ body) = (sg = [])" by simp
  then have ne: "(body = s) = (sg = [])" using s_eq by simp
  have all: "\<And>x. x \<in> set ip \<Longrightarrow> is_digit x" using assms(2) by (simp add: list_all_iff)
  have tw: "takeWhile is_digit body = ip"
    using all not_digit_point(1) by (simp add: body_def takeWhile_append2 takeWhile_eq_all_conv)
  have dw: "dropWhile is_digit body = (if f = 0 then [] else CHR ''.'' # fp)"
    using all not_digit_point(1) by (simp add: body_def dropWhile_append2 dropWhile_eq_Nil_conv)
  show "fixed_point_string f s"
    using assms(1,3,4) by (simp add: fixed_point_string_def st tw dw Let_def)
  have f0: "f = 0 \<Longrightarrow> fp = []" using assms(4) by simp
  show "fixed_point_value s
           = (if sg = [] then 1 else - 1) * of_int (digits_value (ip @ fp)) / 10 ^ f"
    using assms(4) f0 unfolding fixed_point_value_def Let_def st tw dw ne by auto
qed


lemma digit_char_digit: "d < 10 \<Longrightarrow> is_digit (digit_char d)"
proof (cases "0 \<le> d")
  case True
  assume "d < 10"
  then show ?thesis using True digit_char_cases[of d] by simp
next
  case False
  then have "nat d = 0" by simp
  then show ?thesis by (simp add: digit_char_def is_digit_def)
qed

lemma dec_head: "\<exists>c r. dec n = c # r \<and> is_digit c"
proof (induction n rule: dec.induct)
  case (1 n)
  show ?case
  proof (cases "n < 10")
    case True
    then show ?thesis using digit_char_digit[of n] by (simp add: dec_small)
  next
    case False
    then obtain c r where "dec (n div 10) = c # r" "is_digit c" using 1 by auto
    then show ?thesis using False by (simp add: dec_big)
  qed
qed

lemma positive_to_string_head: "\<exists>c r. positive_to_string v = c # r \<and> is_digit c"
proof -
  obtain n k s where nks: "shortest_digits 17 1 v (ilog10 v + 1) = (n, k, s)"
    by (cases "shortest_digits 17 1 v (ilog10 v + 1)") auto
  obtain c r where ds: "dec s = c # r" and c: "is_digit c" using dec_head by blast
  have z: "is_digit CHR ''0''" by (simp add: is_digit_def)
  have tk: "0 < n \<Longrightarrow> take (nat n) (c # r) = c # take (nat n - 1) r"
    by (cases "nat n") simp_all
  show ?thesis
    unfolding positive_to_string_def nks Let_def prod.case ds
    using c z tk by auto
qed

lemma to_fixed_head:
  assumes "to_fixed x f = Inr s" "x \<noteq> NaN"
  shows "\<exists>c r. s = c # r \<and> (is_digit c \<or> c = CHR ''-'' \<or> c = CHR ''I'')"
proof (cases x)
  case (Fin q)
  have le: "\<not> 100 < f" using assms(1) by (auto simp: to_fixed_def split: if_splits)
  define a where "a = \<bar>q\<bar>"
  define body where "body = (if 10 ^ 21 \<le> a then number_to_string (Fin a) else fixed_digits a f)"
  have s: "s = (if q < 0 then ''-'' else []) @ body"
    using assms(1) le unfolding to_fixed_def Fin Let_def a_def body_def
    by (auto simp del: number_to_string.simps)
  have "\<exists>c r. body = c # r \<and> is_digit c"
  proof (cases "10 ^ 21 \<le> a")
    case True
    then have "0 < a" by (meson less_le_trans zero_less_numeral zero_less_power)
    then show ?thesis using True positive_to_string_head[of a] by (simp add: body_def)
  next
    case False
    have "0 \<le> a" by (simp add: a_def)
    from fixed_digits_shape[OF this, of f] obtain ip fp where
      e: "fixed_digits a f = ip @ (if f = 0 then [] else CHR ''.'' # fp)" and
      i: "ip \<noteq> []" "list_all is_digit ip" by blast
    obtain c r where "ip = c # r" using i(1) by (cases ip) auto
    then show ?thesis using False e i(2) by (auto simp: body_def)
  qed
  then show ?thesis using s by auto
qed (use assms in \<open>auto simp: to_fixed_def split: if_splits\<close>)

lemma placeholder_head: "placeholder = c # r \<Longrightarrow> \<not> (is_digit c \<or> c = CHR ''-'' \<or> c = CHR ''I'')"
  by (auto simp: placeholder_def is_digit_def)

lemma fmtNum_placeholder_iff:
  "fmtNum x d = Inr placeholder \<longleftrightarrow> x = Null \<or> x = Undefined \<or> x = Num NaN"
proof (cases "x = Null \<or> x = Undefined \<or> x = Num NaN")
  case True
  then show ?thesis by (auto simp: fmtNum_def)
next
  case False
  then obtain n where x: "x = Num n" "n \<noteq> NaN" by (cases x) auto
  then have nn: "\<not> number_isNaN x" by (cases n) simp_all
  have f: "fmtNum x d = to_fixed n d" using x nn by (simp add: fmtNum_def)
  have "to_fixed n d \<noteq> Inr placeholder"
    using to_fixed_head[of n d placeholder, OF _ x(2)] placeholder_head by blast
  then show ?thesis using False f by simp
qed

lemma fmtNum_fixed:
  assumes "\<bar>q\<bar> < 10 ^ 21" "d \<le> 100"
  shows "\<exists>s. fmtNum (Num (Fin q)) d = Inr s \<and> fixed_point_string d s
            \<and> \<bar>fixed_point_value s - q\<bar> \<le> 1 / (2 * 10 ^ d)"
proof -
  define a where "a = \<bar>q\<bar>"
  define sg where "sg = (if q < 0 then ''-'' else [])"
  define n where "n = \<lfloor>a * 10 ^ d + 1 / 2\<rfloor>"
  have a0: "0 \<le> a" by (simp add: a_def)
  from fixed_digits_shape[OF a0, of d] obtain ip fp where
    e: "fixed_digits a d = ip @ (if d = 0 then [] else CHR ''.'' # fp)" and
    i: "ip \<noteq> []" "list_all is_digit ip" "list_all is_digit fp" "length fp = d" and
    v: "digits_value (ip @ fp) = n" unfolding n_def by blast
  define s where "s = sg @ ip @ (if d = 0 then [] else CHR ''.'' # fp)"
  have sgc: "sg = [] \<or> sg = ''-''" by (simp add: sg_def)
  have f: "fmtNum (Num (Fin q)) d = Inr s"
    using assms by (simp add: fmtNum_def to_fixed_def Let_def a_def [symmetric] e s_def sg_def)
  have fs: "fixed_point_string d s" unfolding s_def by (rule fixed_point_parse(1)[OF i sgc])
  have fv: "fixed_point_value s = (if sg = [] then 1 else - 1) * of_int n / 10 ^ d"
    unfolding s_def using fixed_point_parse(2)[OF i sgc] v by simp
  have p: "(0::rat) < 10 ^ d" by simp
  have "of_int n \<le> a * 10 ^ d + 1 / 2" "a * 10 ^ d + 1 / 2 < of_int n + 1"
    unfolding n_def by linarith+
  then have "\<bar>of_int n - a * 10 ^ d\<bar> \<le> 1 / 2" unfolding abs_le_iff by linarith
  then have "\<bar>of_int n - a * 10 ^ d\<bar> / 10 ^ d \<le> (1 / 2) / 10 ^ d"
    by (rule divide_right_mono) simp
  moreover have "(1 / 2) / 10 ^ d = 1 / (2 * 10 ^ d :: rat)" by simp
  moreover have "\<bar>of_int n - a * 10 ^ d\<bar> / 10 ^ d = \<bar>of_int n / 10 ^ d - a\<bar>"
  proof -
    have "(of_int n - a * 10 ^ d) / 10 ^ d = of_int n / 10 ^ d - a" by (simp add: field_simps)
    then have "\<bar>of_int n / 10 ^ d - a\<bar> = \<bar>of_int n - a * 10 ^ d\<bar> / \<bar>10 ^ d :: rat\<bar>"
      by (simp only: abs_divide [symmetric])
    then show ?thesis by simp
  qed
  ultimately have b: "\<bar>of_int n / 10 ^ d - a\<bar> \<le> 1 / (2 * 10 ^ d)" by (simp only:)
  have "\<bar>fixed_point_value s - q\<bar> = \<bar>of_int n / 10 ^ d - a\<bar>"
    unfolding fv by (auto simp: sg_def a_def)
  then show ?thesis using f fs b by auto
qed

subsection \<open>Evaluating at concrete numbers\<close>

lemma declen_nonpos: "n \<le> 0 \<Longrightarrow> declen n = 0"
  by (simp add: declen.simps)

lemma declen_pos: "0 < n \<Longrightarrow> declen n = 1 + declen (n div 10)"
  by (subst declen.simps) simp

lemmas dec_eval = dec_small dec_big digit_char_def

lemmas fixed_eval = fmtNum_def to_fixed_def fixed_digits_def dec_eval

lemma fl_1e21:
  "fl 1000000000000000000000 = Fin 1000000000000000000000"
  "fl 2000000000000000000000 = Fin 2000000000000000000000"
  by (rule fl_eval_pos[where e = 69], simp_all add: round_half_even_def Let_def)
     (rule fl_eval_pos[where e = 70], simp_all add: round_half_even_def Let_def)

lemma shortest_digits_1e21:
  "shortest_digits 17 (Suc 0) 1000000000000000000000 22 = (22, Suc 0, 1)"
proof -
  have "shortest_digits (Suc 16) (Suc 0) 1000000000000000000000 22 = (22, Suc 0, 1)"
    unfolding shortest_digits.simps Let_def using fl_1e21 by simp
  then show ?thesis by simp
qed

lemma ilog10_1e21: "ilog10 1000000000000000000000 + 1 = 22"
  by (simp add: ilog10_def declen_pos declen_nonpos)

section \<open>Running the statements of a cycle\<close>

lemma fmtNum_Inr: "d \<le> 100 \<Longrightarrow> fmtNum x d = Inr (fmtNum_text x d)"
  by (simp add: fmtNum_text_def fmtNum_def to_fixed_def)

lemma fmtNum_1: "fmtNum x (Suc 0) = Inr (fmtNum_text x (Suc 0))"
  by (rule fmtNum_Inr) simp

lemma fmtNum_2: "fmtNum x 2 = Inr (fmtNum_text x 2)"
  by (rule fmtNum_Inr) simp

lemma temp_or_placeholder_Inr:
  "d \<le> 100 \<Longrightarrow> temp_or_placeholder r d =
     Inr (if temp_f r = Null then placeholder else fmtNum_text (temp_f r) d @ '' '' @ degree_sign @ ''F'')"
  by (simp add: temp_or_placeholder_def fmtNum_Inr)

lemma set_text_Inr: "set_text i (Inr s) p = Inr (p\<lparr>dom := (dom p)(i := s)\<rparr>)"
  by (simp add: set_text_def)

lemmas kpi_simps = fmtNum_1 fmtNum_2 set_text_Inr temp_or_placeholder_Inr Let_def

lemma steps_keep_dom:
  assumes "\<And>s q q'. s \<in> set ss \<Longrightarrow> s q = Inr q' \<Longrightarrow> dom q' = dom q"
  shows "dom (snd (run_steps ss p)) = dom p"
  using assms
proof (induction ss arbitrary: p)
  case Nil
  then show ?case by simp
next
  case (Cons s ss)
  show ?case
  proof (cases "s p")
    case (Inl e)
    then show ?thesis by simp
  next
    case (Inr q)
    have "dom q = dom p" using Cons.prems[of s p q] Inr by simp
    moreover have "dom (snd (run_steps ss q)) = dom q"
      by (rule Cons.IH) (use Cons.prems in auto)
    ultimately show ?thesis using Inr by simp
  qed
qed

lemma buildLineChart_dom: "buildLineChart v c pts l u q = Inr q' \<Longrightarrow> dom q' = dom q"
  by (auto simp: buildLineChart_def)

lemma update_chart_dom: "update_chart v pts q = Inr q' \<Longrightarrow> dom q' = dom q"
  by (auto simp: update_chart_def split: option.splits)

lemma week_charts_dom: "dom (snd (run_steps (week_charts ts q) p)) = dom p"
  by (rule steps_keep_dom)
     (auto simp: week_charts_def Let_def dest: buildLineChart_dom update_chart_dom split: if_splits)

lemma day_charts_dom: "dom (snd (run_steps (day_charts h now ts q) p)) = dom p"
  by (rule steps_keep_dom)
     (auto simp: day_charts_def Let_def dest: buildLineChart_dom update_chart_dom split: if_splits)

lemma kpi_v2_run:
  "run_steps (kpi_v2 h s) p = (None, p\<lparr>dom :=
     (dom p)
     (''curTemp'' := fmtNum_text (temp_f (current s)) 1 @ '' '' @ degree_sign @ ''F'',
      ''curHum'' := fmtNum_text (humidity_pct (current s)) 1 @ '' %'',
      ''curPres'' := fmtNum_text (pressure_hpa (current s)) 1 @ '' hPa / ''
         @ fmtNum_text (Num (js_mul (pressure_hpa (current s)) (fl (2953 / 100000)))) 1 @ '' inHg'',
      ''tHigh'' := (if temp_f (temp_24h_high s) = Null then placeholder
                    else fmtNum_text (temp_f (temp_24h_high s)) 1 @ '' '' @ degree_sign @ ''F''),
      ''tHighTs'' := ''@ '' @ fmtLocalTime h (ts_utc (temp_24h_high s)) True,
      ''tLow'' := (if temp_f (temp_24h_low s) = Null then placeholder
                    else fmtNum_text (temp_f (temp_24h_low s)) 1 @ '' '' @ degree_sign @ ''F''),
      ''tLowTs'' := ''@ '' @ fmtLocalTime h (ts_utc (temp_24h_low s)) True,
      ''presDelta'' := direction (pressure_change_hpa s) @ '' ''
         @ fmtNum_text (Num (math_abs (pressure_change_hpa s))) 1 @ '' hPa'',
      ''lastUpdated'' := ''Last updated: '' @ fmtLocalTime h (ts_utc (current s)) False)\<rparr>)"
  by (simp add: kpi_v2_def kpi_simps)


lemma kpi_v3_run:
  "run_steps (kpi_v3 h s) p = (None, p\<lparr>dom :=
     (dom p)
     (''curTemp'' := fmtNum_text (temp_f (current s)) 1 @ '' '' @ degree_sign @ ''F'',
      ''curHum'' := fmtNum_text (humidity_pct (current s)) 1 @ '' %'',
      ''curPres'' := fmtNum_text (pressure_hpa (current s)) 1 @ '' hPa / ''
         @ fmtNum_text (Num (js_mul (pressure_hpa (current s)) PRESSURE_HPA_TO_INHG)) 1 @ '' inHg'',
      ''tHigh'' := (if temp_f (temp_24h_high s) = Null then placeholder
                    else fmtNum_text (temp_f (temp_24h_high s)) 1 @ '' '' @ degree_sign @ ''F''),
      ''tHighTs'' := ''@ '' @ fmtLocalTime h (ts_utc (temp_24h_high s)) True,
      ''tLow'' := (if temp_f (temp_24h_low s) = Null then placeholder
                    else fmtNum_text (temp_f (temp_24h_low s)) 1 @ '' '' @ degree_sign @ ''F''),
      ''tLowTs'' := ''@ '' @ fmtLocalTime h (ts_utc (temp_24h_low s)) True,
      ''presDelta'' := direction (pressure_change_hpa s) @ '' ''
         @ fmtNum_text (Num (math_abs (pressure_change_hpa s))) 1 @ '' hPa / ''
         @ fmtNum_text (Num (num_abs (js_mul (pressure_change_hpa s) PRESSURE_HPA_TO_INHG))) 1
         @ '' inHg'',
      ''lastUpdated'' := ''Last updated: '' @ fmtLocalTime h (ts_utc (current s)) False)\<rparr>)"
  by (simp add: kpi_v3_def kpi_simps)

lemma kpi_v1_run:
  "run_steps (kpi_v1 h s) p = (None, p\<lparr>dom :=
     (dom p)
     (''curTemp'' := fmtNum_text (temp_f (current s)) 2 @ '' '' @ degree_sign @ ''F'',
      ''curHum'' := fmtNum_text (humidity_pct (current s)) 2 @ '' %'',
      ''curPres'' := fmtNum_text (pressure_hpa (current s)) 2 @ '' hPa'',
      ''curTempTs'' := fmtLocalTime h (ts_utc (current s)) False,
      ''curHumTs'' := fmtLocalTime h (ts_utc (current s)) False,
      ''curPresTs'' := fmtLocalTime h (ts_utc (current s)) False,
      ''tHigh'' := (if temp_f (temp_24h_high s) = Null then placeholder
                    else fmtNum_text (temp_f (temp_24h_high s)) 2 @ '' '' @ degree_sign @ ''F''),
      ''tHighTs'' := fmtLocalTime h (ts_utc (temp_24h_high s)) False,
      ''tLow'' := (if temp_f (temp_24h_low s) = Null then placeholder
                    else fmtNum_text (temp_f (temp_24h_low s)) 2 @ '' '' @ degree_sign @ ''F''),
      ''tLowTs'' := fmtLocalTime h (ts_utc (temp_24h_low s)) False,
      ''presDelta'' := direction (pressure_change_hpa s) @ '' ''
         @ fmtNum_text (Num (math_abs (pressure_change_hpa s))) 2 @ '' hPa'',
      ''presDeltaSub'' := ''vs '' @ fmtLocalTime h (ts_utc (pressure_24h_reference s)) False
         @ '' reference'',
      ''lastUpdated'' := ''Last updated: '' @ fmtLocalTime h (ts_utc (current s)) False)\<rparr>)"
  by (simp add: kpi_v1_def kpi_simps)

lemma render_v1_dom: "dom (snd (render_v1 h s ts p)) = dom (snd (run_steps (kpi_v1 h s) p))"
  by (simp add: render_v1_def kpi_v1_run week_charts_dom)

lemma render_v2_dom: "dom (snd (render_v2 h s ts p)) = dom (snd (run_steps (kpi_v2 h s) p))"
  by (simp add: render_v2_def kpi_v2_run week_charts_dom)

lemma render_v3_dom: "dom (snd (render_v3 h now s ts p)) = dom (snd (run_steps (kpi_v3 h s) p))"
proof -
  obtain p1 where k: "run_steps (kpi_v3 h s) p = (None, p1)" using kpi_v3_run by blast
  obtain r2 p2 where d: "run_steps (day_charts h now ts p1) p1 = (r2, p2)" by force
  have 2: "dom p2 = dom p1" using day_charts_dom[of h now ts p1 p1] d by simp
  show ?thesis
  proof (cases r2)
    case None
    then show ?thesis using k d 2 week_charts_dom[of ts p2 p2] by (simp add: render_v3_def)
  next
    case (Some e)
    then show ?thesis using k d 2 by (simp add: render_v3_def)
  qed
qed

lemma refresh_ok:
  "getJSON (summary_fetch c) = Inr s \<Longrightarrow> getJSON (series_fetch c) = Inr ts
     \<Longrightarrow> refresh render c p = render s ts p"
  by (simp add: refresh_def)

lemma fl_456: "fl (456 / 10) = Fin (6417629469002957 / 140737488355328)"
  by (rule fl_eval_pos[where e = 5]) (simp_all add: round_half_even_def Let_def)

lemma fl_neg_5_2: "fl (- 5 / 2) = Fin (- 5 / 2)"
proof -
  have "fl (5 / 2) = Fin (5 / 2)"
    by (rule fl_eval_pos[where e = 1]) (simp_all add: round_half_even_def Let_def)
  then show ?thesis using fl_neg[of "5 / 2"] by simp
qed

lemma text_7234_1: "fmtNum_text (Num (fl (7234 / 100))) 1 = ''72.3''"
  by (simp only: fl_7234) (simp add: fmtNum_text_def fixed_eval)

lemma text_7234_2: "fmtNum_text (Num (fl (7234 / 100))) 2 = ''72.34''"
  by (simp only: fl_7234) (simp add: fmtNum_text_def fixed_eval)

lemma text_456_1: "fmtNum_text (Num (fl (456 / 10))) 1 = ''45.6''"
  by (simp only: fl_456) (simp add: fmtNum_text_def fixed_eval)

lemma text_456_2: "fmtNum_text (Num (fl (456 / 10))) 2 = ''45.60''"
  by (simp only: fl_456) (simp add: fmtNum_text_def fixed_eval)


lemma text_25_1: "fmtNum_text (Num (Fin (5 / 2))) 1 = ''2.5''"
  by (simp add: fmtNum_text_def fixed_eval)

lemma text_25_2: "fmtNum_text (Num (Fin (5 / 2))) 2 = ''2.50''"
  by (simp add: fmtNum_text_def fixed_eval)

lemma const_pos: "PRESSURE_HPA_TO_INHG = Fin (531965187985003 / 18014398509481984)"
  by (simp only: PRESSURE_HPA_TO_INHG_def fl_const)

lemma delta_inhg: "num_abs (js_mul (Num (Fin (- 5 / 2))) PRESSURE_HPA_TO_INHG)
    = Fin (2659825939925015 / 36028797018963968)"
proof -
  have "fl (2659825939925015 / 36028797018963968) = Fin (2659825939925015 / 36028797018963968)"
    by (rule fl_eval_pos[where e = "- 4"]) (simp_all add: round_half_even_def Let_def)
  then have "fl (- (2659825939925015 / 36028797018963968)) = Fin (- (2659825939925015 / 36028797018963968))"
    using fl_neg[of "2659825939925015 / 36028797018963968"] by simp
  then show ?thesis by (simp add: const_pos js_mul_def)
qed

lemma text_delta_inhg: "fmtNum_text (Num (Fin (2659825939925015 / 36028797018963968))) 1 = ''0.1''"
  by (simp add: fmtNum_text_def fixed_eval)

lemma direction_neg: "direction (Num (Fin (- 5 / 2))) = ''down''"
  by (simp add: direction_def js_gt_def js_lt_def)

lemma math_abs_neg: "math_abs (Num (Fin (- 5 / 2))) = Fin (5 / 2)"
  by (simp add: math_abs_def)

section \<open>Charts\<close>

lemma week_charts_build:
  assumes "charts p ''tempChart'' = None"
  shows "run_steps (week_charts ts p) p =
    (None, p\<lparr>charts := (charts p)
       (''tempChart'' \<mapsto> \<lparr>chart_id = charts_built p, canvas = ''chartTemp'',
            ylabel = ''Temp ('' @ degree_sign @ ''F)'', time_unit = ''day'',
            points = series_points temp_f ts, redraws = 0\<rparr>,
        ''humChart'' \<mapsto> \<lparr>chart_id = charts_built p + 1, canvas = ''chartHum'',
            ylabel = ''Humidity (%)'', time_unit = ''day'',
            points = series_points humidity_pct ts, redraws = 0\<rparr>,
        ''presChart'' \<mapsto> \<lparr>chart_id = charts_built p + 2, canvas = ''chartPres'',
            ylabel = ''Pressure (hPa)'', time_unit = ''day'',
            points = series_points pressure_hpa ts, redraws = 0\<rparr>),
      charts_built := charts_built p + 3\<rparr>)"
  using assms by (simp add: week_charts_def buildLineChart_def series_points_def Let_def)

lemma week_charts_update:
  assumes "charts p ''tempChart'' = Some a" "charts p ''humChart'' = Some b"
    "charts p ''presChart'' = Some c"
  shows "run_steps (week_charts ts p) p =
    (None, p\<lparr>charts := (charts p)
       (''tempChart'' \<mapsto> a\<lparr>points := series_points temp_f ts, redraws := redraws a + 1\<rparr>,
        ''humChart'' \<mapsto> b\<lparr>points := series_points humidity_pct ts, redraws := redraws b + 1\<rparr>,
        ''presChart'' \<mapsto> c\<lparr>points := series_points pressure_hpa ts, redraws := redraws c + 1\<rparr>)\<rparr>)"
  using assms by (simp add: week_charts_def update_chart_def series_points_def Let_def)

lemma day_charts_build:
  assumes "charts p ''temp24Chart'' = None"
  shows "run_steps (day_charts h now ts p) p =
    (None, p\<lparr>charts := (charts p)
       (''temp24Chart'' \<mapsto> \<lparr>chart_id = charts_built p, canvas = ''chartTemp24'',
            ylabel = ''Temp ('' @ degree_sign @ ''F)'', time_unit = ''hour'',
            points = series_points temp_f (last_day h now ts), redraws = 0\<rparr>,
        ''pres24Chart'' \<mapsto> \<lparr>chart_id = charts_built p + 1, canvas = ''chartPres24'',
            ylabel = ''Pressure (hPa)'', time_unit = ''hour'',
            points = series_points pressure_hpa (last_day h now ts), redraws = 0\<rparr>),
      charts_built := charts_built p + 2\<rparr>)"
  using assms
  by (simp add: day_charts_def buildLineChart_def series_points_def last_day_def Let_def)

lemma day_charts_update:
  assumes "charts p ''temp24Chart'' = Some a" "charts p ''pres24Chart'' = Some b"
  shows "run_steps (day_charts h now ts p) p =
    (None, p\<lparr>charts := (charts p)
       (''temp24Chart'' \<mapsto> a\<lparr>points := series_points temp_f (last_day h now ts),
                                redraws := redraws a + 1\<rparr>,
        ''pres24Chart'' \<mapsto> b\<lparr>points := series_points pressure_hpa (last_day h now ts),
                                redraws := redraws b + 1\<rparr>)\<rparr>)"
  using assms
  by (simp add: day_charts_def update_chart_def series_points_def last_day_def Let_def)

lemma week_charts_no_throw: "week_coherent p \<Longrightarrow> fst (run_steps (week_charts ts p) p) = None"
proof (cases "charts p ''tempChart''")
  case None
  then show ?thesis by (simp add: week_charts_build)
next
  case (Some a)
  assume "week_coherent p"
  then obtain b c where "charts p ''humChart'' = Some b" "charts p ''presChart'' = Some c"
    using Some by (auto simp: week_coherent_def)
  then show ?thesis using Some by (simp add: week_charts_update)
qed

lemma day_charts_no_throw: "day_coherent p \<Longrightarrow> fst (run_steps (day_charts h now ts p) p) = None"
proof (cases "charts p ''temp24Chart''")
  case None
  then show ?thesis by (simp add: day_charts_build)
next
  case (Some a)
  assume "day_coherent p"
  then obtain b where "charts p ''pres24Chart'' = Some b"
    using Some by (auto simp: day_coherent_def)
  then show ?thesis using Some by (simp add: day_charts_update)
qed


lemma kpi_v3_shape: "\<exists>D. run_steps (kpi_v3 h s) p = (None, p\<lparr>dom := D\<rparr>)"
  using kpi_v3_run by blast

lemma render_v3_fresh:
  assumes "charts p ''temp24Chart'' = None" "charts p ''tempChart'' = None"
  shows "\<exists>D. render_v3 h now s ts p =
    (None, p\<lparr>dom := D, charts := (charts p)
       (''temp24Chart'' \<mapsto> \<lparr>chart_id = charts_built p, canvas = ''chartTemp24'',
            ylabel = ''Temp ('' @ degree_sign @ ''F)'', time_unit = ''hour'',
            points = series_points temp_f (last_day h now ts), redraws = 0\<rparr>,
        ''pres24Chart'' \<mapsto> \<lparr>chart_id = charts_built p + 1, canvas = ''chartPres24'',
            ylabel = ''Pressure (hPa)'', time_unit = ''hour'',
            points = series_points pressure_hpa (last_day h now ts), redraws = 0\<rparr>,
        ''tempChart'' \<mapsto> \<lparr>chart_id = charts_built p + 2, canvas = ''chartTemp'',
            ylabel = ''Temp ('' @ degree_sign @ ''F)'', time_unit = ''day'',
            points = series_points temp_f ts, redraws = 0\<rparr>,
        ''humChart'' \<mapsto> \<lparr>chart_id = charts_built p + 3, canvas = ''chartHum'',
            ylabel = ''Humidity (%)'', time_unit = ''day'',
            points = series_points humidity_pct ts, redraws = 0\<rparr>,
        ''presChart'' \<mapsto> \<lparr>chart_id = charts_built p + 4, canvas = ''chartPres'',
            ylabel = ''Pressure (hPa)'', time_unit = ''day'',
            points = series_points pressure_hpa ts, redraws = 0\<rparr>),
      charts_built := charts_built p + 5\<rparr>)"
proof -
  obtain D where k: "run_steps (kpi_v3 h s) p = (None, p\<lparr>dom := D\<rparr>)"
    using kpi_v3_shape by blast
  show ?thesis
    using assms by (intro exI[of _ D]) (simp add: render_v3_def k day_charts_build week_charts_build eval_nat_numeral)
qed

lemma render_v3_again:
  assumes "charts p ''temp24Chart'' = Some a" "charts p ''pres24Chart'' = Some b"
    "charts p ''tempChart'' = Some c" "charts p ''humChart'' = Some d"
    "charts p ''presChart'' = Some e"
  shows "\<exists>D. render_v3 h now s ts p =
    (None, p\<lparr>dom := D, charts := (charts p)
       (''temp24Chart'' \<mapsto> a\<lparr>points := series_points temp_f (last_day h now ts),
                                redraws := redraws a + 1\<rparr>,
        ''pres24Chart'' \<mapsto> b\<lparr>points := series_points pressure_hpa (last_day h now ts),
                                redraws := redraws b + 1\<rparr>,
        ''tempChart'' \<mapsto> c\<lparr>points := series_points temp_f ts, redraws := redraws c + 1\<rparr>,
        ''humChart'' \<mapsto> d\<lparr>points := series_points humidity_pct ts, redraws := redraws d + 1\<rparr>,
        ''presChart'' \<mapsto> e\<lparr>points := series_points pressure_hpa ts, redraws := redraws e + 1\<rparr>)\<rparr>)"
proof -
  obtain D where k: "run_steps (kpi_v3 h s) p = (None, p\<lparr>dom := D\<rparr>)"
    using kpi_v3_shape by blast
  show ?thesis
    using assms by (intro exI[of _ D]) (simp add: render_v3_def k day_charts_update week_charts_update)
qed


lemma refresh_failed:
  "promise_all (first_settled c) (getJSON (summary_fetch c)) (getJSON (series_fetch c)) = Inl e
     \<Longrightarrow> refresh render c p = (Some e, p)"
  by (simp add: refresh_def)

lemma promise_all_cases:
  obtains (ok) a b where "x = Inr a" "y = Inr b" "promise_all w x y = Inr (a, b)"
  | (failed) e where "promise_all w x y = Inl e" "x = Inl e \<or> y = Inl e"
  by (cases w; cases x; cases y) auto

lemma present_all:
  "present all_vars p \<Longrightarrow> \<exists>a b c d e. charts p ''temp24Chart'' = Some a \<and>
     charts p ''pres24Chart'' = Some b \<and> charts p ''tempChart'' = Some c \<and>
     charts p ''humChart'' = Some d \<and> charts p ''presChart'' = Some e"
  by (auto simp: present_def all_vars_def day_vars_def week_vars_def)

lemma render_v3_keeps:
  assumes "present all_vars p"
  shows "fst (render_v3 h now s ts p) = None"
    and "frames all_vars (snd (render_v3 h now s ts p)) = frames all_vars p"
    and "charts_built (snd (render_v3 h now s ts p)) = charts_built p"
    and "timer_on (snd (render_v3 h now s ts p)) = timer_on p"
    and "console (snd (render_v3 h now s ts p)) = console p"
    and "present all_vars (snd (render_v3 h now s ts p))"
    and "chart_data all_vars (snd (render_v3 h now s ts p)) =
           map2 (\<lambda>pts old. map_option (\<lambda>(_, n). (pts, n + 1)) old)
             [series_points temp_f (last_day h now ts),
              series_points pressure_hpa (last_day h now ts),
              series_points temp_f ts, series_points humidity_pct ts,
              series_points pressure_hpa ts]
             (chart_data all_vars p)"
proof -
  from present_all[OF assms] obtain a b c d e where
    ch: "charts p ''temp24Chart'' = Some a" "charts p ''pres24Chart'' = Some b"
      "charts p ''tempChart'' = Some c" "charts p ''humChart'' = Some d"
      "charts p ''presChart'' = Some e" by blast
  from render_v3_again[OF ch, of h now s ts] obtain D where
    r: "render_v3 h now s ts p =
    (None, p\<lparr>dom := D, charts := (charts p)
       (''temp24Chart'' \<mapsto> a\<lparr>points := series_points temp_f (last_day h now ts),
                                redraws := redraws a + 1\<rparr>,
        ''pres24Chart'' \<mapsto> b\<lparr>points := series_points pressure_hpa (last_day h now ts),
                                redraws := redraws b + 1\<rparr>,
        ''tempChart'' \<mapsto> c\<lparr>points := series_points temp_f ts, redraws := redraws c + 1\<rparr>,
        ''humChart'' \<mapsto> d\<lparr>points := series_points humidity_pct ts, redraws := redraws d + 1\<rparr>,
        ''presChart'' \<mapsto> e\<lparr>points := series_points pressure_hpa ts, redraws := redraws e + 1\<rparr>)\<rparr>)"
    by blast
  show "fst (render_v3 h now s ts p) = None" by (simp add: r)
  show "frames all_vars (snd (render_v3 h now s ts p)) = frames all_vars p"
    by (simp add: r frames_def all_vars_def day_vars_def week_vars_def ch chart_frame_def)
  show "charts_built (snd (render_v3 h now s ts p)) = charts_built p" by (simp add: r)
  show "timer_on (snd (render_v3 h now s ts p)) = timer_on p" by (simp add: r)
  show "console (snd (render_v3 h now s ts p)) = console p" by (simp add: r)
  show "present all_vars (snd (render_v3 h now s ts p))"
    by (simp add: r present_def all_vars_def day_vars_def week_vars_def)
  show "chart_data all_vars (snd (render_v3 h now s ts p)) =
           map2 (\<lambda>pts old. map_option (\<lambda>(_, n). (pts, n + 1)) old)
             [series_points temp_f (last_day h now ts),
              series_points pressure_hpa (last_day h now ts),
              series_points temp_f ts, series_points humidity_pct ts,
              series_points pressure_hpa ts]
             (chart_data all_vars p)"
    by (simp add: r chart_data_def all_vars_def day_vars_def week_vars_def ch)
qed

lemma tick_v3_keeps:
  assumes "present all_vars p"
  shows "frames all_vars (timer_tick (refresh_v3 h) c p) = frames all_vars p
       \<and> charts_built (timer_tick (refresh_v3 h) c p) = charts_built p
       \<and> timer_on (timer_tick (refresh_v3 h) c p) = timer_on p
       \<and> present all_vars (timer_tick (refresh_v3 h) c p)"
proof (cases "timer_on p")
  case False
  then show ?thesis using assms by (simp add: timer_tick_def)
next
  case True
  show ?thesis
  proof (cases rule: promise_all_cases[of "getJSON (summary_fetch c)" "getJSON (series_fetch c)"
        "first_settled c"])
    case (ok s ts)
    have r: "refresh_v3 h c p = render_v3 h (clock c) s ts p"
      by (simp add: refresh_v3_def refresh_ok ok)
    obtain p' where p': "render_v3 h (clock c) s ts p = (None, p')"
      using render_v3_keeps(1)[OF assms, of h "clock c" s ts]
      by (cases "render_v3 h (clock c) s ts p") auto
    show ?thesis
      using render_v3_keeps(2,3,4,6)[OF assms, of h "clock c" s ts] True
      by (simp add: timer_tick_def r p')
  next
    case (failed e)
    then have "refresh_v3 h c p = (Some e, p)" by (simp add: refresh_v3_def refresh_failed)
    then show ?thesis using True assms
      by (simp add: timer_tick_def frames_def present_def)
  qed
qed

lemma ticks_v3_keep:
  assumes "present all_vars p"
  shows "frames all_vars (run_ticks (refresh_v3 h) cs p) = frames all_vars p
       \<and> charts_built (run_ticks (refresh_v3 h) cs p) = charts_built p
       \<and> timer_on (run_ticks (refresh_v3 h) cs p) = timer_on p
       \<and> present all_vars (run_ticks (refresh_v3 h) cs p)"
  using assms
proof (induction cs arbitrary: p)
  case Nil
  then show ?case by simp
next
  case (Cons c cs)
  from tick_v3_keeps[OF Cons.prems, of h c] Cons.IH[of "timer_tick (refresh_v3 h) c p"]
  show ?case by simp
qed

lemma load_v3:
  fixes h :: host and d :: "string \<Rightarrow> string"
  assumes "getJSON (summary_fetch c) = Inr s" "getJSON (series_fetch c) = Inr ts"
  defines "p1 \<equiv> page_load (refresh_v3 h) c (initial_page d)"
  shows "frames all_vars p1 =
           [Some (0, ''chartTemp24'', ''Temp ('' @ degree_sign @ ''F)'', ''hour''),
            Some (1, ''chartPres24'', ''Pressure (hPa)'', ''hour''),
            Some (2, ''chartTemp'', ''Temp ('' @ degree_sign @ ''F)'', ''day''),
            Some (3, ''chartHum'', ''Humidity (%)'', ''day''),
            Some (4, ''chartPres'', ''Pressure (hPa)'', ''day'')]"
    and "charts_built p1 = 5" and "timer_on p1" and "present all_vars p1"
    and "chart_data all_vars p1 =
           [Some (series_points temp_f (last_day h (clock c) ts), 0),
            Some (series_points pressure_hpa (last_day h (clock c) ts), 0),
            Some (series_points temp_f ts, 0), Some (series_points humidity_pct ts, 0),
            Some (series_points pressure_hpa ts, 0)]"
proof -
  have r: "refresh_v3 h c (initial_page d) = render_v3 h (clock c) s ts (initial_page d)"
    by (simp add: refresh_v3_def refresh_ok assms(1,2))
  have n: "charts (initial_page d) ''temp24Chart'' = None" "charts (initial_page d) ''tempChart'' = None"
    by (simp_all add: initial_page_def)
  from render_v3_fresh[OF n, of h "clock c" s ts] obtain D where
    f: "render_v3 h (clock c) s ts (initial_page d) = (None, (initial_page d)\<lparr>dom := D, charts := (charts (initial_page d))
       (''temp24Chart'' \<mapsto> \<lparr>chart_id = charts_built (initial_page d), canvas = ''chartTemp24'',
            ylabel = ''Temp ('' @ degree_sign @ ''F)'', time_unit = ''hour'',
            points = series_points temp_f (last_day h (clock c) ts), redraws = 0\<rparr>,
        ''pres24Chart'' \<mapsto> \<lparr>chart_id = charts_built (initial_page d) + 1, canvas = ''chartPres24'',
            ylabel = ''Pressure (hPa)'', time_unit = ''hour'',
            points = series_points pressure_hpa (last_day h (clock c) ts), redraws = 0\<rparr>,
        ''tempChart'' \<mapsto> \<lparr>chart_id = charts_built (initial_page d) + 2, canvas = ''chartTemp'',
            ylabel = ''Temp ('' @ degree_sign @ ''F)'', time_unit = ''day'',
            points = series_points temp_f ts, redraws = 0\<rparr>,
        ''humChart'' \<mapsto> \<lparr>chart_id = charts_built (initial_page d) + 3, canvas = ''chartHum'',
            ylabel = ''Humidity (%)'', time_unit = ''day'',
            points = series_points humidity_pct ts, redraws = 0\<rparr>,
        ''presChart'' \<mapsto> \<lparr>chart_id = charts_built (initial_page d) + 4, canvas = ''chartPres'',
            ylabel = ''Pressure (hPa)'', time_unit = ''day'',
            points = series_points pressure_hpa ts, redraws = 0\<rparr>),
      charts_built := charts_built (initial_page d) + 5\<rparr>)" by blast
  have b0: "charts_built (initial_page d) = 0" by (simp add: initial_page_def)
  show "frames all_vars p1 =
           [Some (0, ''chartTemp24'', ''Temp ('' @ degree_sign @ ''F)'', ''hour''),
            Some (1, ''chartPres24'', ''Pressure (hPa)'', ''hour''),
            Some (2, ''chartTemp'', ''Temp ('' @ degree_sign @ ''F)'', ''day''),
            Some (3, ''chartHum'', ''Humidity (%)'', ''day''),
            Some (4, ''chartPres'', ''Pressure (hPa)'', ''day'')]"
    by (simp add: p1_def page_load_def r f b0 frames_def all_vars_def day_vars_def week_vars_def
        chart_frame_def)
  show "charts_built p1 = 5" by (simp add: p1_def page_load_def r f b0)
  show "timer_on p1" by (simp add: p1_def page_load_def r f)
  show "present all_vars p1"
    by (simp add: p1_def page_load_def r f present_def all_vars_def day_vars_def week_vars_def)
  show "chart_data all_vars p1 =
           [Some (series_points temp_f (last_day h (clock c) ts), 0),
            Some (series_points pressure_hpa (last_day h (clock c) ts), 0),
            Some (series_points temp_f ts, 0), Some (series_points humidity_pct ts, 0),
            Some (series_points pressure_hpa ts, 0)]"
    by (simp add: p1_def page_load_def r f chart_data_def all_vars_def day_vars_def week_vars_def)
qed

section \<open>The numeric formatter\<close>

text \<open>
  C1 (as amended).  For every value \<open>x\<close> and digit count \<open>d\<close>, \<^verbatim>\<open>fmtNum\<close> returns the
  placeholder if and only if \<open>x\<close> is \<open>null\<close>, \<open>undefined\<close> or not-a-number.  For a finite
  number of magnitude below \<open>10 ^ 21\<close> and a count of at most 100 it returns a fixed-point
  string with exactly \<open>d\<close> digits after the point (no point for \<open>d = 0\<close>), and the number
  this string denotes is within half a unit of the last digit of \<open>x\<close>.  Outside that range
  \<open>toFixed\<close> answers differently: a count above 100 raises a \<open>RangeError\<close>, the infinities
  are spelled out, and a magnitude of \<open>10 ^ 21\<close> or more is rendered by the general
  number-to-string conversion.
\<close>

theorem fmtNum_contract:
  "(fmtNum x d = Inr placeholder \<longleftrightarrow> x = Null \<or> x = Undefined \<or> x = Num NaN) \<and>
   (\<forall>q. x = Num (Fin q) \<and> \<bar>q\<bar> < 10 ^ 21 \<and> d \<le> 100 \<longrightarrow>
      (\<exists>s. fmtNum x d = Inr s \<and> fixed_point_string d s
           \<and> \<bar>fixed_point_value s - q\<bar> \<le> 1 / (2 * 10 ^ d))) \<and>
   ((x = Num PInf \<or> x = Num NInf \<or> (\<exists>q. x = Num (Fin q))) \<and> 100 < d \<longrightarrow>
      (\<exists>m. fmtNum x d = Inl (RangeError m))) \<and>
   (x = Num PInf \<and> d \<le> 100 \<longrightarrow> fmtNum x d = Inr ''Infinity'') \<and>
   (x = Num NInf \<and> d \<le> 100 \<longrightarrow> fmtNum x d = Inr ''-Infinity'') \<and>
   (\<forall>q. x = Num (Fin q) \<and> 10 ^ 21 \<le> \<bar>q\<bar> \<and> d \<le> 100 \<longrightarrow>
      fmtNum x d = Inr ((if q < 0 then ''-'' else []) @ number_to_string (Fin \<bar>q\<bar>)))"
proof (intro conjI allI impI)
  show "fmtNum x d = Inr placeholder \<longleftrightarrow> x = Null \<or> x = Undefined \<or> x = Num NaN"
    by (rule fmtNum_placeholder_iff)
next
  fix q
  assume "x = Num (Fin q) \<and> \<bar>q\<bar> < 10 ^ 21 \<and> d \<le> 100"
  then show "\<exists>s. fmtNum x d = Inr s \<and> fixed_point_string d s
                \<and> \<bar>fixed_point_value s - q\<bar> \<le> 1 / (2 * 10 ^ d)"
    using fmtNum_fixed[of q d] by simp
next
  assume "(x = Num PInf \<or> x = Num NInf \<or> (\<exists>q. x = Num (Fin q))) \<and> 100 < d"
  then show "\<exists>m. fmtNum x d = Inl (RangeError m)"
    by (auto simp: fmtNum_def to_fixed_def)
next
  assume "x = Num PInf \<and> d \<le> 100"
  then show "fmtNum x d = Inr ''Infinity''" by (simp add: fmtNum_def to_fixed_def)
next
  assume "x = Num NInf \<and> d \<le> 100"
  then show "fmtNum x d = Inr ''-Infinity''" by (simp add: fmtNum_def to_fixed_def)
next
  fix q
  assume "x = Num (Fin q) \<and> 10 ^ 21 \<le> \<bar>q\<bar> \<and> d \<le> 100"
  then show "fmtNum x d = Inr ((if q < 0 then ''-'' else []) @ number_to_string (Fin \<bar>q\<bar>))"
    by (simp add: fmtNum_def to_fixed_def Let_def del: number_to_string.simps)
qed

text \<open>The contract at \<open>x = 72.34\<close> (the nearest binary64 value) and \<open>d = 1\<close>: the result is
  not the placeholder, it is \<open>72.3\<close>, a fixed-point string with one digit.\<close>

theorem fmtNum_contract_witness:
  "fmtNum (Num (Fin (2545237476906107 / 35184372088832))) 1 \<noteq> Inr placeholder \<and>
   \<bar>2545237476906107 / 35184372088832 :: rat\<bar> < 10 ^ 21 \<and> (1::nat) \<le> 100 \<and>
   (\<exists>s. fmtNum (Num (Fin (2545237476906107 / 35184372088832))) 1 = Inr s
        \<and> fixed_point_string 1 s
        \<and> \<bar>fixed_point_value s - 2545237476906107 / 35184372088832\<bar> \<le> 1 / (2 * 10 ^ 1))"
  using fmtNum_contract[of "Num (Fin (2545237476906107 / 35184372088832))" 1]
  by simp

text \<open>
  C1 as stated fails at \<open>x = 10 ^ 21\<close> (a binary64 value, and a number a JSON payload can
  carry) with \<open>d = 2\<close>: the value is a number other than not-a-number, and the result
  \<open>1e+21\<close> is not a fixed-point string with two digits after the point.
\<close>

theorem fmtNum_counterexample:
  "fl (10 ^ 21) = Fin (10 ^ 21) \<and>
   fmtNum (Num (Fin (10 ^ 21))) 2 = Inr ''1e+21'' \<and>
   \<not> fixed_point_string 2 ''1e+21''"
proof (intro conjI)
  show "fl (10 ^ 21) = Fin (10 ^ 21)" using fl_1e21(1) by simp
  show "fmtNum (Num (Fin (10 ^ 21))) 2 = Inr ''1e+21''"
    by (simp add: fmtNum_def to_fixed_def positive_to_string_def ilog10_1e21
        shortest_digits_1e21 exponent_part_def dec_eval)
  show "\<not> fixed_point_string 2 ''1e+21''"
    by (simp add: fixed_point_string_def strip_sign_def is_digit_def)
qed

section \<open>Texts written by a cycle\<close>

lemma refresh_v1_dom:
  "getJSON (summary_fetch c) = Inr s \<Longrightarrow> getJSON (series_fetch c) = Inr ts \<Longrightarrow>
     dom (snd (refresh_v1 h c p)) = dom (snd (run_steps (kpi_v1 h s) p))"
  by (simp add: refresh_v1_def refresh_ok render_v1_dom)

lemma refresh_v2_dom:
  "getJSON (summary_fetch c) = Inr s \<Longrightarrow> getJSON (series_fetch c) = Inr ts \<Longrightarrow>
     dom (snd (refresh_v2 h c p)) = dom (snd (run_steps (kpi_v2 h s) p))"
  by (simp add: refresh_v2_def refresh_ok render_v2_dom)

lemma refresh_v3_dom:
  "getJSON (summary_fetch c) = Inr s \<Longrightarrow> getJSON (series_fetch c) = Inr ts \<Longrightarrow>
     dom (snd (refresh_v3 h c p)) = dom (snd (run_steps (kpi_v3 h s) p))"
  by (simp add: refresh_v3_def refresh_ok render_v3_dom)

lemma ok_cycle_fetch:
  "getJSON (summary_fetch (ok_cycle s ts)) = Inr s" "getJSON (series_fetch (ok_cycle s ts)) = Inr ts"
  by (simp_all add: ok_cycle_def response_ok_def)

lemma scenario_fields:
  "temp_f (current scenario_summary) = Num (fl (7234 / 100))"
  "humidity_pct (current scenario_summary) = Num (fl (456 / 10))"
  "pressure_change_hpa scenario_summary = Num (Fin (- 5 / 2))"
  by (simp_all only: scenario_summary_def scenario_reading_def fl_neg_5_2 summary.simps reading.simps)

section \<open>End-to-end scenarios\<close>

text \<open>
  C8 (as amended).  For a summary whose current reading is
  \<open>{temp_f: 72.34, humidity_pct: 45.6, pressure_hpa: 1015.2, ts_utc: "2024-01-01T12:00:00Z"}\<close>,
  a refresh cycle of \<^verbatim>\<open>part_000\<close> and of \<^verbatim>\<open>app.js\<close> line 212 (one-decimal formatting)
  writes \<open>72.3 \<degree>F\<close> into the temperature KPI and \<open>45.6 %\<close> into the humidity KPI; the
  cycle of \<^verbatim>\<open>app.js\<close> line 58 formats with two decimals and writes \<open>72.34 \<degree>F\<close> and
  \<open>45.60 %\<close>.
\<close>

theorem scenario_current_kpis:
  assumes "getJSON (summary_fetch c) = Inr s" and "getJSON (series_fetch c) = Inr ts"
    and "current s = scenario_reading"
  shows "dom (snd (refresh_v2 h c p)) ''curTemp'' = ''72.3 '' @ degree_sign @ ''F'' \<and>
         dom (snd (refresh_v2 h c p)) ''curHum'' = ''45.6 %'' \<and>
         dom (snd (refresh_v3 h c p)) ''curTemp'' = ''72.3 '' @ degree_sign @ ''F'' \<and>
         dom (snd (refresh_v3 h c p)) ''curHum'' = ''45.6 %'' \<and>
         dom (snd (refresh_v1 h c p)) ''curTemp'' = ''72.34 '' @ degree_sign @ ''F'' \<and>
         dom (snd (refresh_v1 h c p)) ''curHum'' = ''45.60 %''"
proof -
  have t: "temp_f (current s) = Num (fl (7234 / 100))"
    and u: "humidity_pct (current s) = Num (fl (456 / 10))"
    by (simp_all only: assms(3) scenario_reading_def reading.simps)
  show ?thesis
    unfolding refresh_v1_dom[OF assms(1,2)] refresh_v2_dom[OF assms(1,2)]
      refresh_v3_dom[OF assms(1,2)] kpi_v1_run kpi_v2_run kpi_v3_run t u
      text_7234_1 text_7234_2 text_456_1 text_456_2
    by simp
qed

text \<open>The scenario itself: both requests answer 200, the other fields of the summary are
  \<open>null\<close>, the page is new.\<close>

theorem scenario_current_kpis_witness:
  "getJSON (summary_fetch (ok_cycle scenario_summary [])) = Inr scenario_summary \<and>
   getJSON (series_fetch (ok_cycle scenario_summary [])) = Inr [] \<and>
   current scenario_summary = scenario_reading \<and>
   dom (snd (refresh_v3 plain_host (ok_cycle scenario_summary []) (initial_page empty_dom)))
     ''curTemp'' = ''72.3 '' @ degree_sign @ ''F'' \<and>
   dom (snd (refresh_v3 plain_host (ok_cycle scenario_summary []) (initial_page empty_dom)))
     ''curHum'' = ''45.6 %''"
  using scenario_current_kpis[of "ok_cycle scenario_summary []" scenario_summary "[]"
      plain_host "initial_page empty_dom"]
  by (simp add: ok_cycle_fetch scenario_summary_def)

text \<open>
  C8 as stated fails on the refresh of \<^verbatim>\<open>app.js\<close> line 58 (its lines 65-68 call
  \<^verbatim>\<open>fmtNum\<close> with two digits): on the scenario the temperature KPI reads \<open>72.34 \<degree>F\<close>,
  not \<open>72.3 \<degree>F\<close>, and the humidity KPI \<open>45.60 %\<close>.
\<close>

theorem scenario_current_kpis_counterexample:
  "dom (snd (refresh_v1 plain_host (ok_cycle scenario_summary []) (initial_page empty_dom)))
     ''curTemp'' = ''72.34 '' @ degree_sign @ ''F'' \<and>
   dom (snd (refresh_v1 plain_host (ok_cycle scenario_summary []) (initial_page empty_dom)))
     ''curTemp'' \<noteq> ''72.3 '' @ degree_sign @ ''F'' \<and>
   dom (snd (refresh_v1 plain_host (ok_cycle scenario_summary []) (initial_page empty_dom)))
     ''curHum'' = ''45.60 %''"
  unfolding refresh_v1_dom[OF ok_cycle_fetch] kpi_v1_run scenario_fields
    text_7234_2 text_456_2
  by simp


text \<open>
  C9 (as amended).  For \<open>pressure_change_hpa = -2.5\<close> the refresh of \<^verbatim>\<open>part_000\<close> writes
  exactly \<open>down 2.5 hPa\<close> into the pressure-delta KPI; the refresh of \<^verbatim>\<open>app.js\<close>
  line 212 appends the change in inches of mercury and writes \<open>down 2.5 hPa / 0.1 inHg\<close>;
  the refresh of \<^verbatim>\<open>app.js\<close> line 58 writes \<open>down 2.50 hPa\<close>.  The direction word is in
  lower case and the magnitudes carry no sign in all three.
\<close>

theorem scenario_pressure_delta:
  assumes "getJSON (summary_fetch c) = Inr s" and "getJSON (series_fetch c) = Inr ts"
    and "pressure_change_hpa s = Num (fl (- 5 / 2))"
  shows "dom (snd (refresh_v2 h c p)) ''presDelta'' = ''down 2.5 hPa'' \<and>
         dom (snd (refresh_v3 h c p)) ''presDelta'' = ''down 2.5 hPa / 0.1 inHg'' \<and>
         dom (snd (refresh_v1 h c p)) ''presDelta'' = ''down 2.50 hPa''"
proof -
  have d: "pressure_change_hpa s = Num (Fin (- 5 / 2))"
    using assms(3) by (simp only: fl_neg_5_2)
  show ?thesis
    unfolding refresh_v1_dom[OF assms(1,2)] refresh_v2_dom[OF assms(1,2)]
      refresh_v3_dom[OF assms(1,2)] kpi_v1_run kpi_v2_run kpi_v3_run d
      direction_neg math_abs_neg delta_inhg text_25_1 text_25_2 text_delta_inhg
    by simp
qed

text \<open>The scenario: the summary with a pressure change of \<open>-2.5\<close>, both requests answering
  200.\<close>

theorem scenario_pressure_delta_witness:
  "getJSON (summary_fetch (ok_cycle scenario_summary [])) = Inr scenario_summary \<and>
   getJSON (series_fetch (ok_cycle scenario_summary [])) = Inr [] \<and>
   pressure_change_hpa scenario_summary = Num (fl (- 5 / 2)) \<and>
   dom (snd (refresh_v2 plain_host (ok_cycle scenario_summary []) (initial_page empty_dom)))
     ''presDelta'' = ''down 2.5 hPa''"
  using scenario_pressure_delta[of "ok_cycle scenario_summary []" scenario_summary "[]"
      plain_host "initial_page empty_dom"]
  by (simp add: ok_cycle_fetch scenario_summary_def)

text \<open>
  C9 as stated fails on the refresh of \<^verbatim>\<open>app.js\<close> line 212 (its lines 248-255): on the
  scenario the pressure-delta KPI is \<open>down 2.5 hPa / 0.1 inHg\<close>, which is not exactly
  \<open>down 2.5 hPa\<close>.
\<close>

theorem scenario_pressure_delta_counterexample:
  "dom (snd (refresh_v3 plain_host (ok_cycle scenario_summary []) (initial_page empty_dom)))
     ''presDelta'' = ''down 2.5 hPa / 0.1 inHg'' \<and>
   dom (snd (refresh_v3 plain_host (ok_cycle scenario_summary []) (initial_page empty_dom)))
     ''presDelta'' \<noteq> ''down 2.5 hPa''"
  unfolding refresh_v3_dom[OF ok_cycle_fetch] kpi_v3_run scenario_fields
      direction_neg math_abs_neg delta_inhg text_25_1 text_delta_inhg
  by simp

lemma week_coherent_dom [simp]: "week_coherent (p\<lparr>dom := D\<rparr>) = week_coherent p"
  by (simp add: week_coherent_def)

lemma day_coherent_dom [simp]: "day_coherent (p\<lparr>dom := D\<rparr>) = day_coherent p"
  by (simp add: day_coherent_def)

lemma render_v1_no_throw: "week_coherent p \<Longrightarrow> fst (render_v1 h s ts p) = None"
  by (simp add: render_v1_def kpi_v1_run week_charts_no_throw)

lemma render_v2_no_throw: "week_coherent p \<Longrightarrow> fst (render_v2 h s ts p) = None"
  by (simp add: render_v2_def kpi_v2_run week_charts_no_throw)

lemma day_charts_week_coherent:
  assumes "day_coherent p"
  shows "week_coherent (snd (run_steps (day_charts h now ts p) p)) = week_coherent p"
proof (cases "charts p ''temp24Chart''")
  case None
  then show ?thesis by (simp add: day_charts_build week_coherent_def)
next
  case (Some a)
  then obtain b where "charts p ''pres24Chart'' = Some b"
    using assms by (auto simp: day_coherent_def)
  then show ?thesis using Some by (simp add: day_charts_update week_coherent_def)
qed

lemma render_v3_no_throw:
  assumes "week_coherent p" "day_coherent p"
  shows "fst (render_v3 h now s ts p) = None"
proof -
  obtain D where k: "run_steps (kpi_v3 h s) p = (None, p\<lparr>dom := D\<rparr>)"
    using kpi_v3_shape by blast
  define p1 where "p1 = p\<lparr>dom := D\<rparr>"
  have c1: "week_coherent p1" "day_coherent p1" using assms by (simp_all add: p1_def)
  obtain p2 where d: "run_steps (day_charts h now ts p1) p1 = (None, p2)"
    using day_charts_no_throw[OF c1(2), of h now ts]
    by (cases "run_steps (day_charts h now ts p1) p1") auto
  have "week_coherent p2" using day_charts_week_coherent[OF c1(2), of h now ts] c1(1) d by simp
  then show ?thesis
    using k d week_charts_no_throw[of p2 ts] by (simp add: render_v3_def p1_def)
qed

text \<open>
  C10.  When \<open>pressure_change_hpa\<close> is not-a-number, a refresh cycle whose fetches succeed
  does not throw (on a page whose chart variables are set group by group, as the script
  leaves them): both comparisons are false, so the direction is \<open>flat\<close>; the magnitude is
  rendered as the placeholder; the pressure-delta KPI is \<open>flat \<emdash> hPa\<close> in
  \<^verbatim>\<open>part_000\<close> and \<^verbatim>\<open>app.js\<close> line 58, and \<open>flat \<emdash> hPa / \<emdash> inHg\<close> in \<^verbatim>\<open>app.js\<close>
  line 212.
\<close>

theorem nan_delta:
  assumes "getJSON (summary_fetch c) = Inr s" and "getJSON (series_fetch c) = Inr ts"
    and "pressure_change_hpa s = Num NaN"
    and "week_coherent p" and "day_coherent p"
  shows "fst (refresh_v1 h c p) = None \<and> fst (refresh_v2 h c p) = None \<and>
         fst (refresh_v3 h c p) = None \<and>
         direction (pressure_change_hpa s) = ''flat'' \<and>
         fmtNum (Num (math_abs (pressure_change_hpa s))) 1 = Inr placeholder \<and>
         dom (snd (refresh_v1 h c p)) ''presDelta'' = ''flat '' @ placeholder @ '' hPa'' \<and>
         dom (snd (refresh_v2 h c p)) ''presDelta'' = ''flat '' @ placeholder @ '' hPa'' \<and>
         dom (snd (refresh_v3 h c p)) ''presDelta''
           = ''flat '' @ placeholder @ '' hPa / '' @ placeholder @ '' inHg''"
proof -
  have dir: "direction (Num NaN) = ''flat''" by (simp add: direction_def js_gt_def js_lt_def)
  have ab: "math_abs (Num NaN) = NaN" by (simp add: math_abs_def)
  have mu: "num_abs (js_mul (Num NaN) PRESSURE_HPA_TO_INHG) = NaN" by (simp add: js_mul_def)
  have tx: "fmtNum_text (Num NaN) d = placeholder" for d by (simp add: fmtNum_text_def fmtNum_def)
  have nt: "fst (refresh_v1 h c p) = None" "fst (refresh_v2 h c p) = None"
    "fst (refresh_v3 h c p) = None"
    using assms(4,5)
    by (simp_all add: refresh_v1_def refresh_v2_def refresh_v3_def refresh_ok[OF assms(1,2)]
        render_v1_no_throw render_v2_no_throw render_v3_no_throw)
  have texts: "dom (snd (refresh_v1 h c p)) ''presDelta'' = ''flat '' @ placeholder @ '' hPa'' \<and>
         dom (snd (refresh_v2 h c p)) ''presDelta'' = ''flat '' @ placeholder @ '' hPa'' \<and>
         dom (snd (refresh_v3 h c p)) ''presDelta''
           = ''flat '' @ placeholder @ '' hPa / '' @ placeholder @ '' inHg''"
    unfolding refresh_v1_dom[OF assms(1,2)] refresh_v2_dom[OF assms(1,2)]
      refresh_v3_dom[OF assms(1,2)] kpi_v1_run kpi_v2_run kpi_v3_run assms(3) dir ab mu tx
    by simp
  show ?thesis using nt texts by (simp add: assms(3) dir ab fmtNum_def)
qed

text \<open>At the scenario summary with the pressure change replaced by not-a-number, on a new
  page.\<close>

theorem nan_delta_witness:
  "getJSON (summary_fetch (ok_cycle (scenario_summary\<lparr>pressure_change_hpa := Num NaN\<rparr>) []))
     = Inr (scenario_summary\<lparr>pressure_change_hpa := Num NaN\<rparr>) \<and>
   getJSON (series_fetch (ok_cycle (scenario_summary\<lparr>pressure_change_hpa := Num NaN\<rparr>) [])) = Inr [] \<and>
   pressure_change_hpa (scenario_summary\<lparr>pressure_change_hpa := Num NaN\<rparr>) = Num NaN \<and>
   week_coherent (initial_page empty_dom) \<and> day_coherent (initial_page empty_dom) \<and>
   fst (refresh_v3 plain_host (ok_cycle (scenario_summary\<lparr>pressure_change_hpa := Num NaN\<rparr>) [])
          (initial_page empty_dom)) = None \<and>
   dom (snd (refresh_v2 plain_host (ok_cycle (scenario_summary\<lparr>pressure_change_hpa := Num NaN\<rparr>) [])
          (initial_page empty_dom))) ''presDelta'' = ''flat '' @ placeholder @ '' hPa''"
  using nan_delta[of "ok_cycle (scenario_summary\<lparr>pressure_change_hpa := Num NaN\<rparr>) []"
      "scenario_summary\<lparr>pressure_change_hpa := Num NaN\<rparr>" "[]" "initial_page empty_dom" plain_host]
  by (simp add: ok_cycle_fetch week_coherent_def day_coherent_def initial_page_def)

lemma null_inhg: "js_mul Null PRESSURE_HPA_TO_INHG = Fin 0"
  by (simp add: js_mul_def const_pos fl_def)

lemma text_zero_1: "fmtNum_text (Num (Fin 0)) 1 = ''0.0''"
  by (simp add: fmtNum_text_def fixed_eval)

lemma text_null: "fmtNum_text Null d = placeholder"
  by (simp add: fmtNum_text_def fmtNum_def)

section \<open>Null fields\<close>

text \<open>
  C2, at the input where it fails.  With \<open>current.pressure_hpa = null\<close> the refresh of
  \<^verbatim>\<open>app.js\<close> line 212 and of \<^verbatim>\<open>part_000\<close> multiplies \<open>null\<close> by the conversion factor
  before formatting; \<open>null\<close> coerces to \<open>0\<close>, and the current-pressure KPI reads
  \<open>\<emdash> hPa / 0.0 inHg\<close>: the hectopascal part shows the placeholder, the derived
  inches-of-mercury part shows \<open>0.0\<close>.
\<close>

theorem null_pressure_inhg:
  "dom (snd (refresh_v3 plain_host
       (ok_cycle (scenario_summary\<lparr>current := scenario_reading\<lparr>pressure_hpa := Null\<rparr>\<rparr>) [])
       (initial_page empty_dom))) ''curPres'' = placeholder @ '' hPa / 0.0 inHg'' \<and>
   dom (snd (refresh_v2 plain_host
       (ok_cycle (scenario_summary\<lparr>current := scenario_reading\<lparr>pressure_hpa := Null\<rparr>\<rparr>) [])
       (initial_page empty_dom))) ''curPres'' = placeholder @ '' hPa / 0.0 inHg''"
proof -
  have n: "pressure_hpa (current (scenario_summary\<lparr>current := scenario_reading\<lparr>pressure_hpa := Null\<rparr>\<rparr>)) = Null"
    by simp
  have m: "js_mul Null (fl (2953 / 100000)) = Fin 0"
    using null_inhg by (simp only: PRESSURE_HPA_TO_INHG_def)
  show ?thesis
    unfolding refresh_v2_dom[OF ok_cycle_fetch] refresh_v3_dom[OF ok_cycle_fetch]
      kpi_v2_run kpi_v3_run n null_inhg m text_zero_1 text_null
    by simp
qed

section \<open>Fetch stage, driver and chart lifecycle\<close>

lemma getJSON_http:
  "\<not> response_ok st \<Longrightarrow> getJSON (Response st txt js) = Inl (Error (http_message st txt))"
  by simp

lemma revisions_refresh:
  "rf \<in> set (revisions h) \<Longrightarrow> \<exists>render. rf c = refresh render c"
  by (auto simp: revisions_def refresh_v1_def refresh_v2_def refresh_v3_def)

text \<open>
  C3 (as amended).  In every refresh cycle rendering starts only when both requests have
  delivered their values.  If either request fails, the cycle throws the error of one of
  the failing requests and the page is as it was: nothing is rendered.  A response with a
  non-success status makes its request fail with an \<open>Error\<close> whose message is
  \<open>HTTP <status>: <body text>\<close>, and this is the error of the cycle unless the other
  request fails as well and fails first.
\<close>

theorem fetch_stage:
  "(getJSON (summary_fetch c) = Inr s \<and> getJSON (series_fetch c) = Inr ts \<longrightarrow>
      refresh render c p = render s ts p) \<and>
   ((\<exists>e. getJSON (summary_fetch c) = Inl e) \<or> (\<exists>e. getJSON (series_fetch c) = Inl e) \<longrightarrow>
      (\<exists>e. refresh render c p = (Some e, p) \<and>
           (getJSON (summary_fetch c) = Inl e \<or> getJSON (series_fetch c) = Inl e))) \<and>
   (summary_fetch c = Response st txt js \<and> \<not> response_ok st \<and>
      ((\<exists>ts. getJSON (series_fetch c) = Inr ts) \<or> first_settled c = SummaryFirst) \<longrightarrow>
      refresh render c p = (Some (Error (''HTTP '' @ dec (int st) @ '': '' @ txt)), p)) \<and>
   (series_fetch c = Response st' txt' js' \<and> \<not> response_ok st' \<and>
      ((\<exists>s. getJSON (summary_fetch c) = Inr s) \<or> first_settled c = SeriesFirst) \<longrightarrow>
      refresh render c p = (Some (Error (''HTTP '' @ dec (int st') @ '': '' @ txt')), p))"
proof (intro conjI impI)
  assume "getJSON (summary_fetch c) = Inr s \<and> getJSON (series_fetch c) = Inr ts"
  then show "refresh render c p = render s ts p" by (simp add: refresh_ok)
next
  assume a: "(\<exists>e. getJSON (summary_fetch c) = Inl e) \<or> (\<exists>e. getJSON (series_fetch c) = Inl e)"
  show "\<exists>e. refresh render c p = (Some e, p) \<and>
           (getJSON (summary_fetch c) = Inl e \<or> getJSON (series_fetch c) = Inl e)"
  proof (cases rule: promise_all_cases[of "getJSON (summary_fetch c)" "getJSON (series_fetch c)"
        "first_settled c"])
    case (ok x y)
    then show ?thesis using a by auto
  next
    case (failed e)
    then show ?thesis using refresh_failed[of c e render p] by auto
  qed
next
  assume a: "summary_fetch c = Response st txt js \<and> \<not> response_ok st \<and>
      ((\<exists>ts. getJSON (series_fetch c) = Inr ts) \<or> first_settled c = SummaryFirst)"
  then have g: "getJSON (summary_fetch c) = Inl (Error (http_message st txt))" by simp
  have "promise_all (first_settled c) (getJSON (summary_fetch c)) (getJSON (series_fetch c))
          = Inl (Error (http_message st txt))"
    using a unfolding g by (cases "getJSON (series_fetch c)") auto
  then show "refresh render c p = (Some (Error (''HTTP '' @ dec (int st) @ '': '' @ txt)), p)"
    using refresh_failed[of c _ render p] by (simp add: http_message_def)
next
  assume a: "series_fetch c = Response st' txt' js' \<and> \<not> response_ok st' \<and>
      ((\<exists>s. getJSON (summary_fetch c) = Inr s) \<or> first_settled c = SeriesFirst)"
  then have g: "getJSON (series_fetch c) = Inl (Error (http_message st' txt'))" by simp
  have "promise_all (first_settled c) (getJSON (summary_fetch c)) (getJSON (series_fetch c))
          = Inl (Error (http_message st' txt'))"
    using a unfolding g by (cases "getJSON (summary_fetch c)") auto
  then show "refresh render c p = (Some (Error (''HTTP '' @ dec (int st') @ '': '' @ txt')), p)"
    using refresh_failed[of c _ render p] by (simp add: http_message_def)
qed

lemma dec_500: "dec 500 = ''500''"
  by (simp add: dec_eval)

text \<open>At a cycle whose summary request answers 500 while the time series arrives.\<close>

theorem fetch_stage_witness:
  "summary_fetch (failing_cycle []) = Response 500 ''Internal Server Error'' (Inl ''Unexpected token'')
   \<and> \<not> response_ok 500
   \<and> (\<exists>ts. getJSON (series_fetch (failing_cycle [])) = Inr ts)
   \<and> (\<exists>e. getJSON (summary_fetch (failing_cycle [])) = Inl e)
   \<and> refresh (render_v3 plain_host 0) (failing_cycle []) (initial_page empty_dom)
       = (Some (Error ''HTTP 500: Internal Server Error''), initial_page empty_dom)"
  using fetch_stage[of "failing_cycle []" scenario_summary "[]" "render_v3 plain_host 0"
      "initial_page empty_dom" 500 "''Internal Server Error''" "Inl ''Unexpected token''" 0 "[]" "Inl []"]
  by (simp add: failing_cycle_def response_ok_def dec_500 http_message_def)

text \<open>
  C3 as stated fails when the summary response has status 500 and the time-series request
  is lost in the network before the summary's body text has been read: the cycle fails
  with the network error, which carries neither the status code nor the body text.
\<close>

theorem fetch_stage_counterexample:
  "summary_fetch double_failure = Response 500 ''Internal Server Error'' (Inl ''Unexpected token'')
   \<and> \<not> response_ok 500
   \<and> refresh_v3 plain_host double_failure (initial_page empty_dom)
       = (Some (TypeError ''Failed to fetch''), initial_page empty_dom)
   \<and> TypeError ''Failed to fetch'' \<noteq> Error (http_message 500 ''Internal Server Error'')"
  by (simp add: double_failure_def response_ok_def refresh_v3_def refresh_def)


lemma run_ticks_off: "\<not> timer_on p \<Longrightarrow> run_ticks rf cs p = p"
  by (induction cs) (simp_all add: timer_tick_def)

text \<open>
  C4 (as amended).  Let a cycle fail in its fetch stage (network failure, non-success
  status, undecodable body) with error \<open>e\<close>, in any of the three revisions.  If it is the
  first cycle, the error is caught, logged, and \<open>Error loading data: <message>\<close> is written
  into \<^verbatim>\<open>lastUpdated\<close>; the interval timer is then never installed and no later cycle
  runs.  If it is a later cycle, started by the timer, the error is caught and logged and
  nothing else changes: the status text stays as it was, the timer stays installed.  In
  both cases the error goes no further and the charts are left as they were.
\<close>

theorem driver_failure_policy:
  assumes "rf \<in> set (revisions h)"
    and "promise_all (first_settled c) (getJSON (summary_fetch c)) (getJSON (series_fetch c)) = Inl e"
  shows "page_load rf c p =
           p\<lparr>dom := (dom p)(''lastUpdated'' := ''Error loading data: '' @ message e),
             console := console p @ [e]\<rparr> \<and>
         (\<not> timer_on p \<longrightarrow> run_ticks rf cs (page_load rf c p) = page_load rf c p) \<and>
         (timer_on p \<longrightarrow> timer_tick rf c p = p\<lparr>console := console p @ [e]\<rparr>) \<and>
         (\<not> timer_on p \<longrightarrow> timer_tick rf c p = p)"
proof -
  obtain render where "rf c = refresh render c" using revisions_refresh[OF assms(1)] by blast
  then have r: "rf c p = (Some e, p)" using refresh_failed[OF assms(2)] by simp
  have l: "page_load rf c p =
           p\<lparr>dom := (dom p)(''lastUpdated'' := ''Error loading data: '' @ message e),
             console := console p @ [e]\<rparr>"
    by (simp add: page_load_def r)
  have "\<not> timer_on p \<Longrightarrow> \<not> timer_on (page_load rf c p)" by (simp add: l)
  then have "\<not> timer_on p \<Longrightarrow> run_ticks rf cs (page_load rf c p) = page_load rf c p"
    by (rule run_ticks_off)
  then show ?thesis using l by (simp add: timer_tick_def r)
qed

lemma failing_cycle_fails:
  "promise_all (first_settled (failing_cycle ts)) (getJSON (summary_fetch (failing_cycle ts)))
     (getJSON (series_fetch (failing_cycle ts))) = Inl (Error ''HTTP 500: Internal Server Error'')"
  by (simp add: failing_cycle_def response_ok_def http_message_def dec_500)

text \<open>At a first cycle whose summary request answers 500, followed by a tick.\<close>

theorem driver_failure_policy_witness:
  "refresh_v3 plain_host \<in> set (revisions plain_host) \<and>
   promise_all (first_settled (failing_cycle [])) (getJSON (summary_fetch (failing_cycle [])))
     (getJSON (series_fetch (failing_cycle []))) = Inl (Error ''HTTP 500: Internal Server Error'') \<and>
   page_load (refresh_v3 plain_host) (failing_cycle []) (initial_page empty_dom) =
     (initial_page empty_dom)\<lparr>dom := empty_dom(''lastUpdated'' :=
         ''Error loading data: HTTP 500: Internal Server Error''),
       console := [Error ''HTTP 500: Internal Server Error'']\<rparr> \<and>
   \<not> timer_on (initial_page empty_dom) \<and>
   run_ticks (refresh_v3 plain_host) [ok_cycle scenario_summary []]
       (page_load (refresh_v3 plain_host) (failing_cycle []) (initial_page empty_dom))
     = page_load (refresh_v3 plain_host) (failing_cycle []) (initial_page empty_dom)"
proof -
  have m: "refresh_v3 plain_host \<in> set (revisions plain_host)" by (simp add: revisions_def)
  have off: "\<not> timer_on (initial_page empty_dom)" by (simp add: initial_page_def)
  note t = driver_failure_policy[OF m failing_cycle_fails, of "[]" "initial_page empty_dom"
      "[ok_cycle scenario_summary []]"]
  have l: "page_load (refresh_v3 plain_host) (failing_cycle []) (initial_page empty_dom) =
     (initial_page empty_dom)\<lparr>dom := empty_dom(''lastUpdated'' :=
         ''Error loading data: HTTP 500: Internal Server Error''),
       console := [Error ''HTTP 500: Internal Server Error'']\<rparr>"
    using t by (simp add: initial_page_def)
  have k: "run_ticks (refresh_v3 plain_host) [ok_cycle scenario_summary []]
       (page_load (refresh_v3 plain_host) (failing_cycle []) (initial_page empty_dom))
     = page_load (refresh_v3 plain_host) (failing_cycle []) (initial_page empty_dom)"
    using t off by blast
  show ?thesis using m failing_cycle_fails[of "[]"] l off k by blast
qed


lemma page_load_ok: "rf c p = (None, p') \<Longrightarrow> page_load rf c p = p'\<lparr>timer_on := True\<rparr>"
  by (simp add: page_load_def)

lemma timer_tick_failed:
  "rf c p = (Some e, p') \<Longrightarrow> timer_on p \<Longrightarrow> timer_tick rf c p = p'\<lparr>console := console p' @ [e]\<rparr>"
  by (simp add: timer_tick_def)

lemma refresh_v3_failing:
  "refresh_v3 h (failing_cycle ts) p = (Some (Error ''HTTP 500: Internal Server Error''), p)"
  unfolding refresh_v3_def by (rule refresh_failed) (rule failing_cycle_fails)

lemma first_load_v3:
  "\<exists>p'. refresh_v3 plain_host (ok_cycle scenario_summary []) (initial_page empty_dom) = (None, p')
     \<and> console p' = [] \<and> \<not> timer_on p'
     \<and> dom p' ''lastUpdated'' = ''Last updated: 2024-01-01T12:00:00Z''"
proof -
  define c where "c = ok_cycle scenario_summary []"
  define p where "p = initial_page empty_dom"
  have r: "refresh_v3 plain_host c p = render_v3 plain_host (clock c) scenario_summary [] p"
    by (simp add: refresh_v3_def c_def refresh_ok ok_cycle_fetch)
  have n: "charts p ''temp24Chart'' = None" "charts p ''tempChart'' = None"
    by (simp_all add: p_def initial_page_def)
  from render_v3_fresh[OF n, of plain_host "clock c" scenario_summary "[]"]
  obtain p' where f: "render_v3 plain_host (clock c) scenario_summary [] p = (None, p')"
    and k: "console p' = console p" "timer_on p' = timer_on p" by auto
  have "dom p' = dom (snd (run_steps (kpi_v3 plain_host scenario_summary) p))"
    using render_v3_dom[of plain_host "clock c" scenario_summary "[]" p] f by simp
  then have "dom p' ''lastUpdated'' = ''Last updated: 2024-01-01T12:00:00Z''"
    by (simp add: kpi_v3_run scenario_summary_def scenario_reading_def fmtLocalTime_def
        plain_host_def)
  then show ?thesis using r f k by (simp add: c_def p_def initial_page_def)
qed

text \<open>
  C4 as stated fails twice.  When \<^verbatim>\<open>/api/summary\<close> answers 500 in the first cycle, the
  timer is not installed and the cycle that should follow never renders.  When it answers
  500 in a later cycle, the status text still reads \<open>Last updated: ...\<close>: no error message
  is written, the error is only logged.
\<close>

theorem driver_failure_policy_counterexample:
  "\<not> timer_on (run_page (refresh_v3 plain_host) empty_dom (failing_cycle [])
                  [ok_cycle scenario_summary []]) \<and>
   dom (run_page (refresh_v3 plain_host) empty_dom (failing_cycle [])
          [ok_cycle scenario_summary []]) ''curTemp'' = [] \<and>
   dom (run_page (refresh_v3 plain_host) empty_dom (ok_cycle scenario_summary [])
          [failing_cycle []]) ''lastUpdated'' = ''Last updated: 2024-01-01T12:00:00Z'' \<and>
   console (run_page (refresh_v3 plain_host) empty_dom (ok_cycle scenario_summary [])
          [failing_cycle []]) = [Error ''HTTP 500: Internal Server Error'']"
proof -
  have a: "run_page (refresh_v3 plain_host) empty_dom (failing_cycle [])
             [ok_cycle scenario_summary []]
           = (initial_page empty_dom)\<lparr>dom := empty_dom(''lastUpdated'' :=
                 ''Error loading data: HTTP 500: Internal Server Error''),
               console := [Error ''HTTP 500: Internal Server Error'']\<rparr>"
    by (simp add: run_page_def page_load_def refresh_v3_failing timer_tick_def initial_page_def)
  obtain p' where l: "refresh_v3 plain_host (ok_cycle scenario_summary []) (initial_page empty_dom)
      = (None, p')" and c: "console p' = []"
    and u: "dom p' ''lastUpdated'' = ''Last updated: 2024-01-01T12:00:00Z''"
    using first_load_v3 by blast
  have b: "run_page (refresh_v3 plain_host) empty_dom (ok_cycle scenario_summary [])
             [failing_cycle []]
           = p'\<lparr>timer_on := True, console := [Error ''HTTP 500: Internal Server Error'']\<rparr>"
    using c page_load_ok[of "refresh_v3 plain_host" "ok_cycle scenario_summary []"
        "initial_page empty_dom" p', OF l]
    by (simp add: run_page_def timer_tick_def refresh_v3_failing)
  show ?thesis unfolding a b using u by (simp add: initial_page_def empty_dom_def)
qed

text \<open>
  C5.  In \<^verbatim>\<open>app.js\<close> (line 212) the first cycle constructs five charts, one per metric
  and window, on their canvases; after any number of further cycles, failed or not, each
  chart variable holds the same object (same identity, canvas, label and time unit) and
  the number of charts ever constructed is still five; a further cycle whose fetches
  succeed replaces the point array of each chart by the new points and redraws it once.
\<close>

theorem charts_lifecycle:
  fixes h :: host and d :: "string \<Rightarrow> string" and cs :: "cycle list"
  assumes "getJSON (summary_fetch c) = Inr s" and "getJSON (series_fetch c) = Inr ts"
  defines "p1 \<equiv> page_load (refresh_v3 h) c (initial_page d)"
  defines "pn \<equiv> run_ticks (refresh_v3 h) cs p1"
  shows "frames all_vars p1 =
           [Some (0, ''chartTemp24'', ''Temp ('' @ degree_sign @ ''F)'', ''hour''),
            Some (1, ''chartPres24'', ''Pressure (hPa)'', ''hour''),
            Some (2, ''chartTemp'', ''Temp ('' @ degree_sign @ ''F)'', ''day''),
            Some (3, ''chartHum'', ''Humidity (%)'', ''day''),
            Some (4, ''chartPres'', ''Pressure (hPa)'', ''day'')] \<and>
         charts_built p1 = 5 \<and>
         frames all_vars pn = frames all_vars p1 \<and>
         charts_built pn = 5 \<and>
         (getJSON (summary_fetch c') = Inr s' \<and> getJSON (series_fetch c') = Inr ts' \<longrightarrow>
            chart_data all_vars (timer_tick (refresh_v3 h) c' pn) =
              map2 (\<lambda>pts old. map_option (\<lambda>(_, n). (pts, n + 1)) old)
                [series_points temp_f (last_day h (clock c') ts'),
                 series_points pressure_hpa (last_day h (clock c') ts'),
                 series_points temp_f ts', series_points humidity_pct ts',
                 series_points pressure_hpa ts']
                (chart_data all_vars pn))"
proof -
  note l = load_v3[OF assms(1,2), of h d, folded p1_def]
  note k = ticks_v3_keep[OF l(4), of h cs, folded pn_def]
  have data: "chart_data all_vars (timer_tick (refresh_v3 h) c' pn) =
              map2 (\<lambda>pts old. map_option (\<lambda>(_, n). (pts, n + 1)) old)
                [series_points temp_f (last_day h (clock c') ts'),
                 series_points pressure_hpa (last_day h (clock c') ts'),
                 series_points temp_f ts', series_points humidity_pct ts',
                 series_points pressure_hpa ts']
                (chart_data all_vars pn)"
    if ok: "getJSON (summary_fetch c') = Inr s'" "getJSON (series_fetch c') = Inr ts'"
  proof -
    have on: "timer_on pn" and pr: "present all_vars pn" using k l(3) by simp_all
    have r: "refresh_v3 h c' pn = render_v3 h (clock c') s' ts' pn"
      by (simp add: refresh_v3_def refresh_ok ok)
    obtain p' where p': "render_v3 h (clock c') s' ts' pn = (None, p')"
      using render_v3_keeps(1)[OF pr, of h "clock c'" s' ts']
      by (cases "render_v3 h (clock c') s' ts' pn") auto
    have "timer_tick (refresh_v3 h) c' pn = snd (render_v3 h (clock c') s' ts' pn)"
      using on by (simp add: timer_tick_def r p')
    then show ?thesis using render_v3_keeps(7)[OF pr, of h "clock c'" s' ts'] by simp
  qed
  show ?thesis using l(1,2) k data by simp
qed


text \<open>After a first cycle and two ticks, the first of which fails.\<close>

theorem charts_lifecycle_witness:
  "getJSON (summary_fetch (ok_cycle scenario_summary [scenario_reading])) = Inr scenario_summary \<and>
   getJSON (series_fetch (ok_cycle scenario_summary [scenario_reading])) = Inr [scenario_reading] \<and>
   charts_built (page_load (refresh_v3 plain_host) (ok_cycle scenario_summary [scenario_reading])
                   (initial_page empty_dom)) = 5 \<and>
   charts_built (run_ticks (refresh_v3 plain_host) [failing_cycle [], ok_cycle scenario_summary []]
                   (page_load (refresh_v3 plain_host) (ok_cycle scenario_summary [scenario_reading])
                      (initial_page empty_dom))) = 5 \<and>
   frames all_vars (run_ticks (refresh_v3 plain_host) [failing_cycle [], ok_cycle scenario_summary []]
                   (page_load (refresh_v3 plain_host) (ok_cycle scenario_summary [scenario_reading])
                      (initial_page empty_dom)))
     = frames all_vars (page_load (refresh_v3 plain_host) (ok_cycle scenario_summary [scenario_reading])
                      (initial_page empty_dom))"
proof -
  note t = charts_lifecycle[OF ok_cycle_fetch, where h = plain_host and d = empty_dom
      and cs = "[failing_cycle [], ok_cycle scenario_summary []]"]
  show ?thesis using t ok_cycle_fetch by blast
qed

lemma week_render_keeps:
  assumes shape: "\<exists>D. render s ts p = run_steps (week_charts ts (p\<lparr>dom := D\<rparr>)) (p\<lparr>dom := D\<rparr>)"
    and pr: "present week_vars p"
  shows "fst (render s ts p) = None
       \<and> frames all_vars (snd (render s ts p)) = frames all_vars p
       \<and> charts_built (snd (render s ts p)) = charts_built p
       \<and> timer_on (snd (render s ts p)) = timer_on p
       \<and> present week_vars (snd (render s ts p))
       \<and> chart_data week_vars (snd (render s ts p)) =
           map2 (\<lambda>pts old. map_option (\<lambda>(_, n). (pts, n + 1)) old)
             [series_points temp_f ts, series_points humidity_pct ts,
              series_points pressure_hpa ts]
             (chart_data week_vars p)"
proof -
  obtain D where r: "render s ts p = run_steps (week_charts ts (p\<lparr>dom := D\<rparr>)) (p\<lparr>dom := D\<rparr>)"
    using shape by blast
  obtain a b c where ch: "charts p ''tempChart'' = Some a" "charts p ''humChart'' = Some b"
    "charts p ''presChart'' = Some c"
    using pr by (auto simp: present_def week_vars_def)
  have u: "render s ts p = (None, p\<lparr>dom := D, charts := (charts p)
       (''tempChart'' \<mapsto> a\<lparr>points := series_points temp_f ts, redraws := redraws a + 1\<rparr>,
        ''humChart'' \<mapsto> b\<lparr>points := series_points humidity_pct ts, redraws := redraws b + 1\<rparr>,
        ''presChart'' \<mapsto> c\<lparr>points := series_points pressure_hpa ts, redraws := redraws c + 1\<rparr>)\<rparr>)"
    unfolding r using ch by (simp add: week_charts_update)
  show ?thesis
    by (simp add: u frames_def chart_data_def present_def all_vars_def day_vars_def week_vars_def
        ch chart_frame_def)
qed

lemma week_tick_keeps:
  assumes shape: "\<And>s ts p. \<exists>D. render s ts p = run_steps (week_charts ts (p\<lparr>dom := D\<rparr>)) (p\<lparr>dom := D\<rparr>)"
    and pr: "present week_vars p"
  shows "frames all_vars (timer_tick (refresh render) c p) = frames all_vars p
       \<and> charts_built (timer_tick (refresh render) c p) = charts_built p
       \<and> timer_on (timer_tick (refresh render) c p) = timer_on p
       \<and> present week_vars (timer_tick (refresh render) c p)"
proof (cases "timer_on p")
  case False
  then show ?thesis using pr by (simp add: timer_tick_def)
next
  case True
  show ?thesis
  proof (cases rule: promise_all_cases[of "getJSON (summary_fetch c)" "getJSON (series_fetch c)"
        "first_settled c"])
    case (ok s ts)
    have r: "refresh render c p = render s ts p" by (simp add: refresh_ok ok)
    note k = week_render_keeps[where render = render and s = s and ts = ts and p = p,
        OF shape pr]
    obtain p' where p': "render s ts p = (None, p')"
      using k by (cases "render s ts p") auto
    show ?thesis using k True by (simp add: timer_tick_def r p')
  next
    case (failed e)
    then have "refresh render c p = (Some e, p)" by (simp add: refresh_failed)
    then show ?thesis using True pr by (simp add: timer_tick_def frames_def present_def)
  qed
qed

lemma week_ticks_keep:
  assumes shape: "\<And>s ts p. \<exists>D. render s ts p = run_steps (week_charts ts (p\<lparr>dom := D\<rparr>)) (p\<lparr>dom := D\<rparr>)"
    and pr: "present week_vars p"
  shows "frames all_vars (run_ticks (refresh render) cs p) = frames all_vars p
       \<and> charts_built (run_ticks (refresh render) cs p) = charts_built p
       \<and> timer_on (run_ticks (refresh render) cs p) = timer_on p
       \<and> present week_vars (run_ticks (refresh render) cs p)"
  using pr
proof (induction cs arbitrary: p)
  case Nil
  then show ?case by simp
next
  case (Cons c cs)
  from week_tick_keeps[where render = render and p = p and c = c, OF shape Cons.prems]
    Cons.IH[of "timer_tick (refresh render) c p"]
  show ?case by simp
qed

lemma week_load:
  fixes d :: "string \<Rightarrow> string"
  assumes shape: "\<And>s ts p. \<exists>D. render s ts p = run_steps (week_charts ts (p\<lparr>dom := D\<rparr>)) (p\<lparr>dom := D\<rparr>)"
    and ok: "getJSON (summary_fetch c) = Inr s" "getJSON (series_fetch c) = Inr ts"
  defines "p1 \<equiv> page_load (refresh render) c (initial_page d)"
  shows "frames all_vars p1 =
           [None, None,
            Some (0, ''chartTemp'', ''Temp ('' @ degree_sign @ ''F)'', ''day''),
            Some (1, ''chartHum'', ''Humidity (%)'', ''day''),
            Some (2, ''chartPres'', ''Pressure (hPa)'', ''day'')]
       \<and> charts_built p1 = 3 \<and> timer_on p1 \<and> present week_vars p1"
proof -
  have r: "refresh render c (initial_page d) = render s ts (initial_page d)"
    by (simp add: refresh_ok ok)
  obtain D where u: "render s ts (initial_page d)
      = run_steps (week_charts ts ((initial_page d)\<lparr>dom := D\<rparr>)) ((initial_page d)\<lparr>dom := D\<rparr>)"
    using shape by blast
  have n: "charts ((initial_page d)\<lparr>dom := D\<rparr>) ''tempChart'' = None"
    by (simp add: initial_page_def)
  show ?thesis
    unfolding p1_def page_load_def r u week_charts_build[OF n]
    by (simp add: initial_page_def frames_def present_def all_vars_def day_vars_def week_vars_def
        chart_frame_def)
qed

lemma render_v1_shape:
  "\<exists>D. render_v1 h s ts p = run_steps (week_charts ts (p\<lparr>dom := D\<rparr>)) (p\<lparr>dom := D\<rparr>)"
  by (simp add: render_v1_def kpi_v1_run) blast

lemma render_v2_shape:
  "\<exists>D. render_v2 h s ts p = run_steps (week_charts ts (p\<lparr>dom := D\<rparr>)) (p\<lparr>dom := D\<rparr>)"
  by (simp add: render_v2_def kpi_v2_run) blast

lemma refresh_v1_eta: "refresh_v1 h = refresh (render_v1 h)"
  by (rule ext) (simp add: refresh_v1_def)

lemma refresh_v2_eta: "refresh_v2 h = refresh (render_v2 h)"
  by (rule ext) (simp add: refresh_v2_def)

text \<open>The same for the three seven-day charts of the two earlier revisions.\<close>

lemma charts_lifecycle_week:
  fixes h :: host and d :: "string \<Rightarrow> string" and cs :: "cycle list"
  assumes "getJSON (summary_fetch c) = Inr s" and "getJSON (series_fetch c) = Inr ts"
    and "rf = refresh_v1 h \<or> rf = refresh_v2 h"
  defines "p1 \<equiv> page_load rf c (initial_page d)"
  defines "pn \<equiv> run_ticks rf cs p1"
  shows "frames all_vars p1 =
           [None, None,
            Some (0, ''chartTemp'', ''Temp ('' @ degree_sign @ ''F)'', ''day''),
            Some (1, ''chartHum'', ''Humidity (%)'', ''day''),
            Some (2, ''chartPres'', ''Pressure (hPa)'', ''day'')] \<and>
         charts_built p1 = 3 \<and>
         frames all_vars pn = frames all_vars p1 \<and>
         charts_built pn = 3"
proof -
  from assms(3) obtain render where rf: "rf = refresh render"
    and shape: "\<And>s ts p. \<exists>D. render s ts p = run_steps (week_charts ts (p\<lparr>dom := D\<rparr>)) (p\<lparr>dom := D\<rparr>)"
    using render_v1_shape render_v2_shape refresh_v1_eta refresh_v2_eta by metis
  note l = week_load[where render = render and d = d, OF shape assms(1,2), folded rf,
      folded p1_def]
  from l have pr: "present week_vars p1" by simp
  note k = week_ticks_keep[where render = render and cs = cs, OF shape pr, folded rf,
      folded pn_def]
  show ?thesis using l k by simp
qed

section \<open>Direction and magnitude of the pressure change\<close>

lemma declen_ge0: "0 \<le> declen n"
  by (induction n rule: declen.induct) (subst declen.simps, simp)

lemma declen_bounds:
  "0 < n \<Longrightarrow> 10 ^ nat (declen n - 1) \<le> n \<and> n < 10 ^ nat (declen n)"
proof (induction n rule: declen.induct)
  case (1 n)
  show ?case
  proof (cases "n < 10")
    case True
    then have "n div 10 = 0" using 1(2) by simp
    then show ?thesis using True 1(2) by (simp add: declen_pos declen_nonpos)
  next
    case False
    with 1 have h: "0 < n div 10" by simp
    from 1 h have ih: "10 ^ nat (declen (n div 10) - 1) \<le> n div 10"
      "n div 10 < 10 ^ nat (declen (n div 10))"
      by simp_all
    have b: "declen n = 1 + declen (n div 10)" using 1 by (simp add: declen_pos)
    have g: "1 \<le> declen (n div 10)"
      using declen_pos[OF h] declen_ge0[of "n div 10 div 10"] by simp
    have e1: "nat (declen n - 1) = Suc (nat (declen (n div 10) - 1))" using b g by simp
    have e2: "nat (declen n) = Suc (nat (declen (n div 10)))" using b g by simp
    have d2: "10 * (n div 10) \<le> n" "n < 10 * (n div 10) + 10" by simp_all
    show ?thesis unfolding e1 e2 power_Suc using ih d2 by linarith
  qed
qed

lemma ilog10_upper:
  assumes "0 < q"
  shows "q < 10 powi (ilog10 q + 1)"
proof -
  obtain p d where pd: "quotient_of q = (p, d)" by force
  have dpos: "0 < d" using quotient_of_denom_pos[OF pd] .
  have q: "q = of_int p / of_int d" using quotient_of_div[OF pd] .
  have ppos: "0 < p" using assms dpos q by (simp add: zero_less_divide_iff)
  define bp where "bp = declen p"
  define bd where "bd = declen d"
  have bp1: "1 \<le> bp" using declen_pos[OF ppos] declen_ge0[of "p div 10"] by (simp add: bp_def)
  have bd1: "1 \<le> bd" using declen_pos[OF dpos] declen_ge0[of "d div 10"] by (simp add: bd_def)
  have P: "of_int p < (10::rat) powi bp"
  proof -
    from declen_bounds[OF ppos] have b: "p < 10 ^ nat bp" by (simp add: bp_def)
    have "(of_int p::rat) < of_int (10 ^ nat bp)" using b by (simp only: of_int_less_iff)
    then show ?thesis using bp1 by (simp add: power_int_def)
  qed
  have D: "(10::rat) powi (bd - 1) \<le> of_int d"
  proof -
    from declen_bounds[OF dpos] have a: "10 ^ nat (bd - 1) \<le> d" by (simp add: bd_def)
    have "(of_int (10 ^ nat (bd - 1))::rat) \<le> of_int d" using a by (simp only: of_int_le_iff)
    then show ?thesis using bd1 by (simp add: power_int_def)
  qed
  have dq: "(0::rat) < of_int d" using dpos by simp
  have hi: "q < (10::rat) powi (bp - bd + 1)"
  proof -
    have "of_int p < (10::rat) powi bp" using P .
    also have "\<dots> = 10 powi (bp - bd + 1) * 10 powi (bd - 1)"
      by (simp add: power_int_add [symmetric])
    also have "\<dots> \<le> 10 powi (bp - bd + 1) * of_int d" using D by (simp add: mult_left_mono)
    finally show ?thesis using dq by (simp add: q pos_divide_less_eq)
  qed
  have il: "ilog10 q = (if 10 powi (bp - bd) \<le> q then bp - bd else bp - bd - 1)"
    by (simp add: ilog10_def pd bp_def bd_def Let_def)
  show ?thesis
  proof (cases "10 powi (bp - bd) \<le> q")
    case True
    then show ?thesis using hi il by simp
  next
    case False
    then show ?thesis using il by simp
  qed
qed

lemma ilog10_large:
  assumes "10 ^ 21 \<le> q"
  shows "21 \<le> ilog10 q"
proof -
  have q0: "0 < q" using assms by (meson less_le_trans zero_less_numeral zero_less_power)
  have "(10::rat) powi 21 \<le> q" using assms by simp
  also have "q < 10 powi (ilog10 q + 1)" using ilog10_upper[OF q0] .
  finally have "(10::rat) powi 21 < 10 powi (ilog10 q + 1)" .
  then show ?thesis
    using power_int_increasing[of "ilog10 q + 1" 21 "10::rat"]
    by (cases "21 < ilog10 q + 1") simp_all
qed

lemma shortest_digits_n:
  "shortest_digits fuel k v n0 = (n, k', s) \<Longrightarrow> n = n0 \<or> n = n0 + 1"
proof (induction fuel arbitrary: k)
  case 0
  then show ?case by simp
next
  case (Suc fuel)
  then show ?case
    by (simp add: Let_def split: if_splits)
qed

lemma dec_all_digits: "list_all is_digit (dec n)"
proof (induction n rule: dec.induct)
  case (1 n)
  show ?case
  proof (cases "n < 10")
    case True
    then show ?thesis using digit_char_digit[of n] by (simp add: dec_small)
  next
    case False
    then have "list_all is_digit (dec (n div 10))" using 1 by simp
    moreover have "is_digit (digit_char (n mod 10))" using digit_char_digit[of "n mod 10"] by simp
    ultimately show ?thesis using False by (simp add: dec_big)
  qed
qed

lemma digits_no_minus: "list_all is_digit s \<Longrightarrow> CHR ''-'' \<notin> set s"
  using not_digit_point(2) by (auto simp: list_all_iff)

lemma positive_to_string_no_minus:
  assumes "10 ^ 21 \<le> v"
  shows "CHR ''-'' \<notin> set (positive_to_string v)"
proof -
  obtain n k s where nks: "shortest_digits 17 1 v (ilog10 v + 1) = (n, k, s)"
    by (cases "shortest_digits 17 1 v (ilog10 v + 1)") auto
  have n: "22 \<le> n" using shortest_digits_n[OF nks] ilog10_large[OF assms] by auto
  have ds: "CHR ''-'' \<notin> set (dec s)" by (rule digits_no_minus) (rule dec_all_digits)
  have tk: "CHR ''-'' \<notin> set (take j (dec s))" "CHR ''-'' \<notin> set (drop j (dec s))" for j
    using ds by (auto dest: in_set_takeD in_set_dropD)
  have ex: "CHR ''-'' \<notin> set (exponent_part (n - 1))"
    using n digits_no_minus[OF dec_all_digits[of "n - 1"]] by (simp add: exponent_part_def)
  show ?thesis
    unfolding positive_to_string_def nks Let_def prod.case
    using n ds tk ex by simp
qed

lemma fixed_digits_no_minus:
  assumes "0 \<le> a"
  shows "CHR ''-'' \<notin> set (fixed_digits a f)"
proof -
  from fixed_digits_shape[OF assms, of f] obtain ip fp where
    e: "fixed_digits a f = ip @ (if f = 0 then [] else CHR ''.'' # fp)" and
    i: "list_all is_digit ip" "list_all is_digit fp" by blast
  show ?thesis unfolding e using digits_no_minus[OF i(1)] digits_no_minus[OF i(2)] by simp
qed

lemma magnitude_unsigned:
  assumes "n \<noteq> NaN" "fmtNum (Num (math_abs (Num n))) d = Inr s"
  shows "CHR ''-'' \<notin> set s"
proof (cases n)
  case NaN
  then show ?thesis using assms by simp
next
  case PInf
  then show ?thesis using assms(2)
    by (auto simp: math_abs_def fmtNum_def to_fixed_def split: if_splits)
next
  case NInf
  then show ?thesis using assms(2)
    by (auto simp: math_abs_def fmtNum_def to_fixed_def split: if_splits)
next
  case (Fin q)
  define a where "a = \<bar>q\<bar>"
  have a0: "0 \<le> a" "\<not> a < 0" by (simp_all add: a_def)
  have s: "s = (if 10 ^ 21 \<le> a then number_to_string (Fin a) else fixed_digits a d)"
    using assms(2) a0 unfolding Fin math_abs_def fmtNum_def to_fixed_def Let_def
    by (auto simp: a_def simp del: number_to_string.simps split: if_splits)
  show ?thesis
  proof (cases "10 ^ 21 \<le> a")
    case True
    then have "0 < a" by (meson less_le_trans zero_less_numeral zero_less_power)
    then show ?thesis using True s positive_to_string_no_minus[OF True] by simp
  next
    case False
    then show ?thesis using s fixed_digits_no_minus[OF a0(1)] by simp
  qed
qed


text \<open>
  C7.  For a pressure change \<open>delta\<close>: a positive one gives the direction word \<open>up\<close>, a
  negative one \<open>down\<close>, zero gives \<open>flat\<close> (the infinities count as positive and
  negative); the magnitude handed to the formatter is the absolute value of \<open>delta\<close>,
  which is not negative, and its rendering carries no minus sign, whatever the digit
  count; the pressure-delta KPI of each revision is the direction word followed by that
  rendering.
\<close>

theorem delta_direction:
  "(0 < a \<longrightarrow> direction (Num (Fin a)) = ''up'') \<and>
   (b < 0 \<longrightarrow> direction (Num (Fin b)) = ''down'') \<and>
   direction (Num (Fin 0)) = ''flat'' \<and>
   direction (Num PInf) = ''up'' \<and> direction (Num NInf) = ''down'' \<and>
   math_abs (Num (Fin q)) = Fin \<bar>q\<bar> \<and> 0 \<le> \<bar>q\<bar> \<and>
   math_abs (Num PInf) = PInf \<and> math_abs (Num NInf) = PInf \<and>
   (n \<noteq> NaN \<and> fmtNum (Num (math_abs (Num n))) d = Inr t \<longrightarrow> CHR ''-'' \<notin> set t) \<and>
   (getJSON (summary_fetch c) = Inr s \<and> getJSON (series_fetch c) = Inr ts \<longrightarrow>
      dom (snd (refresh_v1 h c p)) ''presDelta''
        = direction (pressure_change_hpa s) @ '' ''
          @ fmtNum_text (Num (math_abs (pressure_change_hpa s))) 2 @ '' hPa'' \<and>
      dom (snd (refresh_v2 h c p)) ''presDelta''
        = direction (pressure_change_hpa s) @ '' ''
          @ fmtNum_text (Num (math_abs (pressure_change_hpa s))) 1 @ '' hPa'' \<and>
      dom (snd (refresh_v3 h c p)) ''presDelta''
        = direction (pressure_change_hpa s) @ '' ''
          @ fmtNum_text (Num (math_abs (pressure_change_hpa s))) 1 @ '' hPa / ''
          @ fmtNum_text (Num (num_abs (js_mul (pressure_change_hpa s) PRESSURE_HPA_TO_INHG))) 1
          @ '' inHg'')"
proof -
  have dirs: "(0 < a \<longrightarrow> direction (Num (Fin a)) = ''up'') \<and>
   (b < 0 \<longrightarrow> direction (Num (Fin b)) = ''down'') \<and>
   direction (Num (Fin 0)) = ''flat'' \<and>
   direction (Num PInf) = ''up'' \<and> direction (Num NInf) = ''down''"
    by (simp add: direction_def js_gt_def js_lt_def)
  have mags: "math_abs (Num (Fin q)) = Fin \<bar>q\<bar> \<and> 0 \<le> \<bar>q\<bar> \<and>
   math_abs (Num PInf) = PInf \<and> math_abs (Num NInf) = PInf"
    by (simp add: math_abs_def)
  have sign: "n \<noteq> NaN \<and> fmtNum (Num (math_abs (Num n))) d = Inr t \<longrightarrow> CHR ''-'' \<notin> set t"
    using magnitude_unsigned[of n d t] by blast
  have texts: "dom (snd (refresh_v1 h c p)) ''presDelta''
        = direction (pressure_change_hpa s) @ '' ''
          @ fmtNum_text (Num (math_abs (pressure_change_hpa s))) 2 @ '' hPa'' \<and>
      dom (snd (refresh_v2 h c p)) ''presDelta''
        = direction (pressure_change_hpa s) @ '' ''
          @ fmtNum_text (Num (math_abs (pressure_change_hpa s))) 1 @ '' hPa'' \<and>
      dom (snd (refresh_v3 h c p)) ''presDelta''
        = direction (pressure_change_hpa s) @ '' ''
          @ fmtNum_text (Num (math_abs (pressure_change_hpa s))) 1 @ '' hPa / ''
          @ fmtNum_text (Num (num_abs (js_mul (pressure_change_hpa s) PRESSURE_HPA_TO_INHG))) 1
          @ '' inHg''"
    if ok: "getJSON (summary_fetch c) = Inr s" "getJSON (series_fetch c) = Inr ts"
    unfolding refresh_v1_dom[OF ok] refresh_v2_dom[OF ok] refresh_v3_dom[OF ok]
      kpi_v1_run kpi_v2_run kpi_v3_run
    by simp
  show ?thesis
  proof (intro conjI)
    show "getJSON (summary_fetch c) = Inr s \<and> getJSON (series_fetch c) = Inr ts \<longrightarrow>
      dom (snd (refresh_v1 h c p)) ''presDelta''
        = direction (pressure_change_hpa s) @ '' ''
          @ fmtNum_text (Num (math_abs (pressure_change_hpa s))) 2 @ '' hPa'' \<and>
      dom (snd (refresh_v2 h c p)) ''presDelta''
        = direction (pressure_change_hpa s) @ '' ''
          @ fmtNum_text (Num (math_abs (pressure_change_hpa s))) 1 @ '' hPa'' \<and>
      dom (snd (refresh_v3 h c p)) ''presDelta''
        = direction (pressure_change_hpa s) @ '' ''
          @ fmtNum_text (Num (math_abs (pressure_change_hpa s))) 1 @ '' hPa / ''
          @ fmtNum_text (Num (num_abs (js_mul (pressure_change_hpa s) PRESSURE_HPA_TO_INHG))) 1
          @ '' inHg''"
      using texts by (intro impI) (elim conjE)
  qed (use dirs mags sign in blast)+
qed

text \<open>At the changes \<open>2.5\<close> and \<open>-2.5\<close> and the scenario summary.\<close>

theorem delta_direction_witness:
  "(0::rat) < 5 / 2 \<and> direction (Num (Fin (5 / 2))) = ''up'' \<and>
   (- 5 / 2 :: rat) < 0 \<and> direction (Num (Fin (- 5 / 2))) = ''down'' \<and>
   math_abs (Num (Fin (- 5 / 2))) = Fin \<bar>- 5 / 2\<bar> \<and>
   Fin (- 5 / 2) \<noteq> NaN \<and> fmtNum (Num (math_abs (Num (Fin (- 5 / 2))))) 1 = Inr ''2.5'' \<and>
   CHR ''-'' \<notin> set ''2.5'' \<and>
   getJSON (summary_fetch (ok_cycle scenario_summary [])) = Inr scenario_summary \<and>
   getJSON (series_fetch (ok_cycle scenario_summary [])) = Inr [] \<and>
   dom (snd (refresh_v2 plain_host (ok_cycle scenario_summary []) (initial_page empty_dom)))
     ''presDelta''
     = direction (pressure_change_hpa scenario_summary) @ '' ''
       @ fmtNum_text (Num (math_abs (pressure_change_hpa scenario_summary))) 1 @ '' hPa''"
proof -
  have f: "fmtNum (Num (math_abs (Num (Fin (- 5 / 2))))) 1 = Inr ''2.5''"
    unfolding math_abs_neg using fmtNum_Inr[of 1 "Num (Fin (5 / 2))"] text_25_1
    by (simp only: simp_thms)
  note t = delta_direction[where a = "5 / 2" and b = "- 5 / 2" and q = "- 5 / 2"
      and n = "Fin (- 5 / 2)" and d = 1 and t = "''2.5''"
      and c = "ok_cycle scenario_summary []" and s = scenario_summary and ts = "[]"
      and h = plain_host and p = "initial_page empty_dom"]
  have p1: "(0::rat) < 5 / 2" and p2: "(- 5 / 2 :: rat) < 0" and p3: "Fin (- 5 / 2) \<noteq> NaN"
    by simp_all
  have g: "getJSON (summary_fetch (ok_cycle scenario_summary [])) = Inr scenario_summary"
    "getJSON (series_fetch (ok_cycle scenario_summary [])) = Inr []"
    by (rule ok_cycle_fetch)+
  have m: "CHR ''-'' \<notin> set ''2.5''" using t p3 f by (simp only: simp_thms)
  have u: "direction (Num (Fin (5 / 2))) = ''up''" using t p1 by (simp only: simp_thms)
  have w: "direction (Num (Fin (- 5 / 2))) = ''down''" using t p2 by (simp only: simp_thms)
  have a: "math_abs (Num (Fin (- 5 / 2))) = Fin \<bar>- 5 / 2\<bar>" using t by (simp only: simp_thms)
  have x: "dom (snd (refresh_v2 plain_host (ok_cycle scenario_summary []) (initial_page empty_dom)))
     ''presDelta''
     = direction (pressure_change_hpa scenario_summary) @ '' ''
       @ fmtNum_text (Num (math_abs (pressure_change_hpa scenario_summary))) 1 @ '' hPa''"
    using t g by (simp only: simp_thms)
  show ?thesis using p1 u p2 w a p3 f m g x by (simp only: simp_thms)
qed









section \<open>Pressure conversion\<close>




end
